theory Spec2Isabelle
  imports Main
begin

section \<open>Python values and the object store\<close>

text \<open>
  The module \<^verbatim>\<open>sourcegen/csharp/_Config.py\<close> declares one frozen dataclass,
  \<^verbatim>\<open>Config\<close>, with two class-level dictionaries, four annotated fields and the
  factory \<^verbatim>\<open>from_parsed\<close>. Dictionaries and instances are Python objects: they
  live in a store and are passed by reference. A value is a scalar or a reference;
  the store is a list of objects and an address is an index into it. Allocation
  appends, so an address never changes its meaning by allocation alone.
\<close>

type_synonym addr = nat

datatype py_value =
    PyNone
  | PyBool bool
  | PyInt int
  | PyStr string
  | PyRef addr

text \<open>
  The four annotated attributes of the class (source lines 27 to 33). The annotations
  (\<^verbatim>\<open>Dict[str, str]\<close>) are not enforced by Python, so a field holds any value.
\<close>

record Config =
  class_crosswalk :: py_value
  class_accessors :: py_value
  derived_handles :: py_value
  wrapper_classes :: py_value

datatype py_error = TypeError | AttributeError | FrozenInstanceError | ValueError

text \<open>
  The objects of the store: dictionaries, lists, instances of \<^verbatim>\<open>Config\<close>, and objects
  of any other class. All that the module does with an argument is test its truth,
  so an object of another class is given by the outcome of its truth test
  (\<^verbatim>\<open>__bool__\<close> or \<^verbatim>\<open>__len__\<close>): true, false, or the error that the test raises.
  A float \<^verbatim>\<open>0.0\<close> and an empty tuple are false objects of this kind; an array of
  several elements, whose \<^verbatim>\<open>__bool__\<close> raises \<^verbatim>\<open>ValueError\<close>, is a raising one.
\<close>

datatype py_object =
    PyDict "(py_value \<times> py_value) list"
  | PyList "py_value list"
  | PyConfig Config
  | PyOther "py_error + bool"

type_synonym heap = "py_object list"

definition deref :: "heap \<Rightarrow> addr \<Rightarrow> py_object option" where
  "deref h a = (if a < length h then Some (h ! a) else None)"

definition alloc :: "heap \<Rightarrow> py_object \<Rightarrow> py_value \<times> heap" where
  "alloc h obj = (PyRef (length h), h @ [obj])"

text \<open>
  Truth value testing, as \<^verbatim>\<open>or\<close> performs it: \<^verbatim>\<open>None\<close>, \<^verbatim>\<open>False\<close>, zero and
  empty containers are false; an object of another class gives the outcome of its own
  test, which may be an error; every other object is true (an instance of
  \<^verbatim>\<open>Config\<close> defines neither \<^verbatim>\<open>__bool__\<close> nor \<^verbatim>\<open>__len__\<close>).
\<close>

definition truthy :: "heap \<Rightarrow> py_value \<Rightarrow> py_error + bool" where
  "truthy h v =
     (case v of
        PyNone \<Rightarrow> Inr False
      | PyBool b \<Rightarrow> Inr b
      | PyInt i \<Rightarrow> Inr (i \<noteq> 0)
      | PyStr s \<Rightarrow> Inr (s \<noteq> [])
      | PyRef a \<Rightarrow>
          (case deref h a of
             Some (PyDict kvs) \<Rightarrow> Inr (kvs \<noteq> [])
           | Some (PyList xs) \<Rightarrow> Inr (xs \<noteq> [])
           | Some (PyOther t) \<Rightarrow> t
           | _ \<Rightarrow> Inr True))"

text \<open>
  The expression \<^verbatim>\<open>x or {}\<close>: the truth of \<^verbatim>\<open>x\<close> is tested first, and an error
  raised by the test is the outcome of the expression. Otherwise its value is the
  value of \<^verbatim>\<open>x\<close> when that is true, and a newly created empty dictionary when it
  is false. The display \<^verbatim>\<open>{}\<close> is evaluated, and its object allocated, only in
  the last case.
\<close>

definition or_empty_dict :: "heap \<Rightarrow> py_value \<Rightarrow> (py_error + py_value) \<times> heap" where
  "or_empty_dict h x =
     (case truthy h x of
        Inl e \<Rightarrow> (Inl e, h)
      | Inr b \<Rightarrow>
          if b then (Inr x, h)
          else (case alloc h (PyDict []) of (d, h') \<Rightarrow> (Inr d, h')))"

section \<open>The class \<^verbatim>\<open>Config\<close>\<close>

text \<open>
  The two assignments in the class body (source lines 13 to 24) carry no annotation,
  so they are attributes of the class object and not dataclass fields. Executing the
  class body creates the two dictionaries and binds them in the class namespace.
\<close>

record Config_class =
  ret_type_crosswalk :: py_value
  prop_type_crosswalk :: py_value

definition ret_type_crosswalk_items :: "(py_value \<times> py_value) list" where
  "ret_type_crosswalk_items =
     [(PyStr ''const char*'', PyStr ''string''),
      (PyStr ''const double*'', PyStr ''double[]''),
      (PyStr ''const int*'', PyStr ''int[]''),
      (PyStr ''size_t'', PyStr ''nuint''),
      (PyStr ''char*'', PyStr ''byte*'')]"

definition prop_type_crosswalk_items :: "(py_value \<times> py_value) list" where
  "prop_type_crosswalk_items =
     [(PyStr ''byte*'', PyStr ''string''),
      (PyStr ''double*'', PyStr ''double[]'')]"

definition define_Config :: "heap \<Rightarrow> Config_class \<times> heap" where
  "define_Config h =
     (case alloc h (PyDict ret_type_crosswalk_items) of (r, h1) \<Rightarrow>
      case alloc h1 (PyDict prop_type_crosswalk_items) of (p, h2) \<Rightarrow>
        (\<lparr>ret_type_crosswalk = r, prop_type_crosswalk = p\<rparr>, h2))"

text \<open>The dataclass fields, in declaration order: the parameters of \<^verbatim>\<open>__init__\<close>.\<close>

definition Config_fields :: "string list" where
  "Config_fields =
     [''class_crosswalk'', ''class_accessors'', ''derived_handles'', ''wrapper_classes'']"

text \<open>A keyword argument of a call, or the parameter's default when the call has none.\<close>

definition kwarg :: "(string \<times> py_value) list \<Rightarrow> string \<Rightarrow> py_value \<Rightarrow> py_value" where
  "kwarg kw name dflt = (case map_of kw name of Some v \<Rightarrow> v | None \<Rightarrow> dflt)"

text \<open>
  Binding the arguments of \<^verbatim>\<open>Config(*pos, **kw)\<close> to the generated
  \<^verbatim>\<open>__init__(self, class_crosswalk, class_accessors, derived_handles, wrapper_classes)\<close>:
  four positional-or-keyword parameters without defaults. Too many positional
  arguments, a repeated or unknown keyword, a parameter given both ways and a
  missing parameter each raise \<^verbatim>\<open>TypeError\<close>.
\<close>

definition bind_init :: "py_value list \<Rightarrow> (string \<times> py_value) list \<Rightarrow> py_error + Config" where
  "bind_init pos kw =
     (let given = take (length pos) Config_fields;
          rest = drop (length pos) Config_fields;
          keys = map fst kw
      in if length Config_fields < length pos then Inl TypeError
         else if \<not> distinct keys then Inl TypeError
         else if list_ex (\<lambda>k. k \<notin> set Config_fields) keys then Inl TypeError
         else if list_ex (\<lambda>k. k \<in> set given) keys then Inl TypeError
         else if list_ex (\<lambda>n. n \<notin> set keys) rest then Inl TypeError
         else (let vs = pos @ map (\<lambda>n. kwarg kw n PyNone) rest
               in Inr \<lparr>class_crosswalk = vs ! 0, class_accessors = vs ! 1,
                       derived_handles = vs ! 2, wrapper_classes = vs ! 3\<rparr>))"

text \<open>
  Calling the class: a new instance is allocated and \<^verbatim>\<open>__init__\<close> stores the four
  arguments in it. Nothing is allocated when the arguments do not bind.
\<close>

definition Config_new ::
  "heap \<Rightarrow> py_value list \<Rightarrow> (string \<times> py_value) list \<Rightarrow> (py_error + py_value) \<times> heap" where
  "Config_new h pos kw =
     (case bind_init pos kw of
        Inl e \<Rightarrow> (Inl e, h)
      | Inr c \<Rightarrow> (case alloc h (PyConfig c) of (self, h') \<Rightarrow> (Inr self, h')))"

text \<open>
  The body of \<^verbatim>\<open>from_parsed\<close> (source lines 39 and 40), with its four parameters
  bound. The arguments of the call to \<^verbatim>\<open>cls\<close> are evaluated from left to right,
  then the class is called with the four results as positional arguments. An error
  raised while an argument is evaluated ends the call: the later arguments are not
  evaluated and no instance is created. The module declares no subclass, so
  \<^verbatim>\<open>cls\<close> is \<^verbatim>\<open>Config\<close> itself.
\<close>

definition from_parsed ::
  "heap \<Rightarrow> py_value \<Rightarrow> py_value \<Rightarrow> py_value \<Rightarrow> py_value \<Rightarrow> (py_error + py_value) \<times> heap" where
  "from_parsed h cc ca dh wc =
     (case or_empty_dict h cc of
        (Inl e, h1) \<Rightarrow> (Inl e, h1)
      | (Inr a1, h1) \<Rightarrow>
     (case or_empty_dict h1 ca of
        (Inl e, h2) \<Rightarrow> (Inl e, h2)
      | (Inr a2, h2) \<Rightarrow>
     (case or_empty_dict h2 dh of
        (Inl e, h3) \<Rightarrow> (Inl e, h3)
      | (Inr a3, h3) \<Rightarrow>
     (case or_empty_dict h3 wc of
        (Inl e, h4) \<Rightarrow> (Inl e, h4)
      | (Inr a4, h4) \<Rightarrow> Config_new h4 [a1, a2, a3, a4] []))))"

text \<open>
  The call \<^verbatim>\<open>Config.from_parsed(*pos, **kw)\<close>. The class is bound to \<^verbatim>\<open>cls\<close> by the
  classmethod; the bare \<^verbatim>\<open>*\<close> of the signature (source line 36) makes the four
  parameters keyword-only, each with the default \<^verbatim>\<open>None\<close>.
\<close>

definition from_parsed_call ::
  "heap \<Rightarrow> py_value list \<Rightarrow> (string \<times> py_value) list \<Rightarrow> (py_error + py_value) \<times> heap" where
  "from_parsed_call h pos kw =
     (if pos \<noteq> [] then (Inl TypeError, h)
      else if \<not> distinct (map fst kw) then (Inl TypeError, h)
      else if list_ex (\<lambda>k. k \<notin> set Config_fields) (map fst kw) then (Inl TypeError, h)
      else from_parsed h
             (kwarg kw ''class_crosswalk'' PyNone)
             (kwarg kw ''class_accessors'' PyNone)
             (kwarg kw ''derived_handles'' PyNone)
             (kwarg kw ''wrapper_classes'' PyNone))"

text \<open>
  Reading a data attribute of an instance: the instance's own fields first, then the
  attributes of its class.
\<close>

definition Config_getattr :: "Config_class \<Rightarrow> heap \<Rightarrow> py_value \<Rightarrow> string \<Rightarrow> py_error + py_value" where
  "Config_getattr cls h self name =
     (case self of
        PyRef a \<Rightarrow>
          (case deref h a of
             Some (PyConfig c) \<Rightarrow>
               if name = ''class_crosswalk'' then Inr (class_crosswalk c)
               else if name = ''class_accessors'' then Inr (class_accessors c)
               else if name = ''derived_handles'' then Inr (derived_handles c)
               else if name = ''wrapper_classes'' then Inr (wrapper_classes c)
               else if name = ''ret_type_crosswalk'' then Inr (ret_type_crosswalk cls)
               else if name = ''prop_type_crosswalk'' then Inr (prop_type_crosswalk cls)
               else Inl AttributeError
           | _ \<Rightarrow> Inl AttributeError)
      | _ \<Rightarrow> Inl AttributeError)"

text \<open>
  \<^verbatim>\<open>@dataclass(frozen=True)\<close> (source line 8) generates \<^verbatim>\<open>__setattr__\<close> and
  \<^verbatim>\<open>__delattr__\<close>. Each raises \<^verbatim>\<open>FrozenInstanceError\<close> when \<^verbatim>\<open>type(self) is cls\<close> or
  the name is one of the fields, and otherwise defers to \<^verbatim>\<open>super(cls, self)\<close>, which
  raises \<^verbatim>\<open>TypeError\<close> for an object that is not an instance of the class.
\<close>

definition is_Config :: "heap \<Rightarrow> py_value \<Rightarrow> bool" where
  "is_Config h v =
     (case v of
        PyRef a \<Rightarrow> (case deref h a of Some (PyConfig c) \<Rightarrow> True | _ \<Rightarrow> False)
      | _ \<Rightarrow> False)"

definition Config_setattr ::
  "heap \<Rightarrow> py_value \<Rightarrow> string \<Rightarrow> py_value \<Rightarrow> (py_error + unit) \<times> heap" where
  "Config_setattr h self name v =
     (if is_Config h self \<or> name \<in> set Config_fields then (Inl FrozenInstanceError, h)
      else (Inl TypeError, h))"

definition Config_delattr :: "heap \<Rightarrow> py_value \<Rightarrow> string \<Rightarrow> (py_error + unit) \<times> heap" where
  "Config_delattr h self name =
     (if is_Config h self \<or> name \<in> set Config_fields then (Inl FrozenInstanceError, h)
      else (Inl TypeError, h))"

section \<open>Observations used in the properties\<close>

text \<open>
  Equality of Python values (\<^verbatim>\<open>==\<close>). Scalars compare by value, with \<^verbatim>\<open>True == 1\<close>
  and \<^verbatim>\<open>False == 0\<close>. An object equals itself; two dictionaries are equal when they
  have the same number of entries and every key of one is a key of the other with an
  equal value; two lists are compared element by element; two instances of the
  dataclass are compared as the tuples of their four fields (the generated
  \<^verbatim>\<open>__eq__\<close>). The comparison descends through references, so the depth is
  bounded by a counter: the result \<open>None\<close> stands for Python's \<^verbatim>\<open>RecursionError\<close>.
\<close>

fun scalar_eq :: "py_value \<Rightarrow> py_value \<Rightarrow> bool" where
  "scalar_eq PyNone PyNone = True"
| "scalar_eq (PyBool a) (PyBool b) = (a = b)"
| "scalar_eq (PyBool a) (PyInt j) = ((if a then 1 else 0) = j)"
| "scalar_eq (PyInt i) (PyBool b) = (i = (if b then 1 else 0))"
| "scalar_eq (PyInt i) (PyInt j) = (i = j)"
| "scalar_eq (PyStr s) (PyStr t) = (s = t)"
| "scalar_eq _ _ = False"

fun all_true :: "bool option list \<Rightarrow> bool option" where
  "all_true [] = Some True"
| "all_true (None # rs) = None"
| "all_true (Some False # rs) = Some False"
| "all_true (Some True # rs) = all_true rs"

fun py_eq :: "nat \<Rightarrow> heap \<Rightarrow> py_value \<Rightarrow> py_value \<Rightarrow> bool option" where
  "py_eq 0 h x y = None"
| "py_eq (Suc n) h x y =
     (if x = y then Some True
      else case (x, y) of
        (PyRef a, PyRef b) \<Rightarrow>
          (case (deref h a, deref h b) of
             (Some (PyDict d1), Some (PyDict d2)) \<Rightarrow>
               if length d1 \<noteq> length d2 then Some False
               else all_true (map (\<lambda>(k, v).
                      case find (\<lambda>(k', v'). k' = k \<or> scalar_eq k' k) d2 of
                        None \<Rightarrow> Some False
                      | Some (k', v') \<Rightarrow> py_eq n h v v') d1)
           | (Some (PyList l1), Some (PyList l2)) \<Rightarrow>
               if length l1 \<noteq> length l2 then Some False
               else all_true (map (\<lambda>(u, v). py_eq n h u v) (zip l1 l2))
           | (Some (PyConfig c1), Some (PyConfig c2)) \<Rightarrow>
               all_true [py_eq n h (class_crosswalk c1) (class_crosswalk c2),
                         py_eq n h (class_accessors c1) (class_accessors c2),
                         py_eq n h (derived_handles c1) (derived_handles c2),
                         py_eq n h (wrapper_classes c1) (wrapper_classes c2)]
           | _ \<Rightarrow> Some False)
      | _ \<Rightarrow> Some (scalar_eq x y))"

text \<open>The entries of the dictionary a value refers to, if it refers to one.\<close>

definition mapping_of :: "heap \<Rightarrow> py_value \<Rightarrow> (py_value \<times> py_value) list option" where
  "mapping_of h v =
     (case v of
        PyRef a \<Rightarrow> (case deref h a of Some (PyDict kvs) \<Rightarrow> Some kvs | _ \<Rightarrow> None)
      | _ \<Rightarrow> None)"

definition is_mapping :: "heap \<Rightarrow> py_value \<Rightarrow> bool" where
  "is_mapping h v = (mapping_of h v \<noteq> None)"

text \<open>A value is valid in a store when it is a scalar or refers to an object of the store.\<close>

definition valid :: "heap \<Rightarrow> py_value \<Rightarrow> bool" where
  "valid h v = (case v of PyRef a \<Rightarrow> a < length h | _ \<Rightarrow> True)"

text \<open>
  The dictionaries that \<^verbatim>\<open>from_parsed\<close> creates for the arguments \<open>xs\<close>, one for each
  false argument, and the value stored for an argument \<open>x\<close> that follows the
  arguments \<open>before\<close>.
\<close>

definition fresh :: "heap \<Rightarrow> py_value list \<Rightarrow> py_object list" where
  "fresh h xs = map (\<lambda>x. PyDict []) (filter (\<lambda>x. truthy h x = Inr False) xs)"

definition keep :: "heap \<Rightarrow> py_value list \<Rightarrow> py_value \<Rightarrow> py_value" where
  "keep h before x =
     (if truthy h x = Inr False then PyRef (length h + length (fresh h before)) else x)"

text \<open>
  A value is testable when its truth test returns: every value is, except a reference
  to an object whose truth test raises. The arguments of a call, evaluated from left
  to right as a list: the results, or the first error.
\<close>

definition testable :: "heap \<Rightarrow> py_value \<Rightarrow> bool" where
  "testable h v = (case truthy h v of Inl e \<Rightarrow> False | Inr b \<Rightarrow> True)"

fun eval_args :: "heap \<Rightarrow> py_value list \<Rightarrow> (py_error + py_value list) \<times> heap" where
  "eval_args h [] = (Inr [], h)"
| "eval_args h (x # xs) =
     (case or_empty_dict h x of
        (Inl e, h1) \<Rightarrow> (Inl e, h1)
      | (Inr a, h1) \<Rightarrow>
          (case eval_args h1 xs of
             (Inl e, h2) \<Rightarrow> (Inl e, h2)
           | (Inr as, h2) \<Rightarrow> (Inr (a # as), h2)))"

text \<open>A value is populated when it refers to a dictionary with at least one entry.\<close>

definition populated :: "heap \<Rightarrow> py_value \<Rightarrow> bool" where
  "populated h v = (case mapping_of h v of Some m \<Rightarrow> m \<noteq> [] | None \<Rightarrow> False)"

text \<open>
  Two arguments that \<^verbatim>\<open>from_parsed\<close> cannot tell apart up to equality: both false, or
  both true and equal; and two arguments that lead to the very same result: the same
  value, or two false values.
\<close>

definition similar :: "nat \<Rightarrow> heap \<Rightarrow> py_value \<Rightarrow> py_value \<Rightarrow> bool" where
  "similar n H x y =
     (valid H y \<and> truthy H x = truthy H y \<and>
      (truthy H x = Inr False \<or> py_eq (Suc n) H x y = Some True))"

definition same_or_falsy :: "heap \<Rightarrow> py_value \<Rightarrow> py_value \<Rightarrow> bool" where
  "same_or_falsy h x y =
     (x = y \<or>
      (valid h x \<and> valid h y \<and> truthy h x = Inr False \<and> truthy h y = Inr False))"

section \<open>Concrete stores and calls\<close>

text \<open>
  The stores and keyword lists at which the theorems below are instantiated. Every
  store begins with \<open>loaded_store\<close>, which together with \<open>loaded_class\<close> is what
  executing the class body in an empty store leaves. The store \<open>sol_store\<close> adds the
  mapping \<^verbatim>\<open>{"Sol": "Solution"}\<close>; \<open>after_first\<close> and \<open>after_second\<close> are the stores
  after one and two calls of the factory with that mapping as \<^verbatim>\<open>class_crosswalk\<close>,
  the second call on a copy of the mapping created in between; \<open>after_omitted\<close> and
  \<open>after_explicit\<close> are the stores after a call that omits \<^verbatim>\<open>class_accessors\<close> and a
  call that passes an empty mapping for it.
\<close>

definition loaded_class :: Config_class where
  "loaded_class = \<lparr>ret_type_crosswalk = PyRef 0, prop_type_crosswalk = PyRef 1\<rparr>"

definition loaded_store :: heap where
  "loaded_store = [PyDict ret_type_crosswalk_items, PyDict prop_type_crosswalk_items]"

definition sol_mapping :: py_object where
  "sol_mapping = PyDict [(PyStr ''Sol'', PyStr ''Solution'')]"

definition sol_store :: heap where
  "sol_store = loaded_store @ [sol_mapping]"

definition empty_fields :: Config where
  "empty_fields = \<lparr>class_crosswalk = PyRef 2, class_accessors = PyRef 2,
                    derived_handles = PyRef 2, wrapper_classes = PyRef 2\<rparr>"

definition two_instances :: heap where
  "two_instances = [PyDict [], PyConfig empty_fields, PyConfig empty_fields]"

definition four_mappings :: heap where
  "four_mappings =
     loaded_store @
     [PyDict [(PyStr ''Sol'', PyStr ''Solution'')],
      PyDict [(PyStr ''Thermo'', PyStr ''thermo'')],
      PyDict [(PyStr ''Surf'', PyStr ''Solution'')],
      PyDict [(PyStr ''Func1'', PyRef 6)],
      PyDict [(PyStr ''derive'', PyStr ''Func1'')]]"

definition four_keywords :: "(string \<times> py_value) list" where
  "four_keywords =
     [(''wrapper_classes'', PyRef 5), (''class_crosswalk'', PyRef 2),
      (''derived_handles'', PyRef 4), (''class_accessors'', PyRef 3)]"

definition first_fields :: Config where
  "first_fields = \<lparr>class_crosswalk = PyRef 2, class_accessors = PyRef 3,
                    derived_handles = PyRef 4, wrapper_classes = PyRef 5\<rparr>"

definition second_fields :: Config where
  "second_fields = \<lparr>class_crosswalk = PyRef 7, class_accessors = PyRef 8,
                     derived_handles = PyRef 9, wrapper_classes = PyRef 10\<rparr>"

definition after_first :: heap where
  "after_first = sol_store @ [PyDict [], PyDict [], PyDict [], PyConfig first_fields]"

definition after_second :: heap where
  "after_second =
     after_first @ [sol_mapping] @ [PyDict [], PyDict [], PyDict [], PyConfig second_fields]"

definition with_empty :: heap where
  "with_empty = sol_store @ [PyDict []]"

definition omitted_fields :: Config where
  "omitted_fields = \<lparr>class_crosswalk = PyRef 2, class_accessors = PyRef 4,
                      derived_handles = PyRef 5, wrapper_classes = PyRef 6\<rparr>"

definition explicit_fields :: Config where
  "explicit_fields = \<lparr>class_crosswalk = PyRef 2, class_accessors = PyRef 8,
                       derived_handles = PyRef 9, wrapper_classes = PyRef 10\<rparr>"

definition after_omitted :: heap where
  "after_omitted = with_empty @ [PyDict [], PyDict [], PyDict [], PyConfig omitted_fields]"

definition after_explicit :: heap where
  "after_explicit = after_omitted @ [PyDict [], PyDict [], PyDict [], PyConfig explicit_fields]"

text \<open>
  A store with a list and a false object of another class, for a call with malformed
  arguments, and a store with an object whose truth test raises \<^verbatim>\<open>ValueError\<close>.
\<close>

definition list_store :: heap where
  "list_store = loaded_store @ [PyList [PyInt 1, PyInt 2], PyOther (Inr False)]"

definition malformed_keywords :: "(string \<times> py_value) list" where
  "malformed_keywords =
     [(''class_crosswalk'', PyRef 2), (''class_accessors'', PyInt 0),
      (''derived_handles'', PyRef 3), (''wrapper_classes'', PyStr ''nonsense'')]"

definition raising_store :: heap where
  "raising_store = loaded_store @ [PyOther (Inl ValueError)]"

section \<open>The store under allocation\<close>

text \<open>
  Allocation appends to the store, so an object that exists keeps its address and its
  contents, and a valid value keeps its truth value and the entries of its mapping.
\<close>

lemma deref_append: "a < length h \<Longrightarrow> deref (h @ ext) a = deref h a"
  by (simp add: deref_def nth_append)

lemma deref_Some_valid: "deref h a = Some obj \<Longrightarrow> a < length h"
  by (simp add: deref_def split: if_splits)

lemma deref_ext:
  assumes "deref h a = Some obj" and "\<exists>e. h' = h @ e"
  shows "deref h' a = Some obj"
  using assms deref_append [OF deref_Some_valid [OF assms(1)]] by auto

lemma deref_instance:
  "deref (h @ e @ [obj]) (length h + length e) = Some obj"
  by (simp add: deref_def nth_append)

lemma valid_append: "valid h v \<Longrightarrow> valid (h @ ext) v"
  by (cases v) (simp_all add: valid_def)

lemma truthy_append: "valid h v \<Longrightarrow> truthy (h @ ext) v = truthy h v"
  by (cases v) (simp_all add: truthy_def valid_def deref_append)

lemma mapping_of_valid: "mapping_of h v = Some m \<Longrightarrow> valid h v"
  by (cases v) (auto simp: mapping_of_def valid_def dest: deref_Some_valid split: option.splits)

lemma mapping_of_Some:
  "mapping_of h v = Some m \<longleftrightarrow> (\<exists>a. v = PyRef a \<and> deref h a = Some (PyDict m))"
  by (cases v) (auto simp: mapping_of_def split: option.splits py_object.splits)

lemma mapping_of_append: "mapping_of h v = Some m \<Longrightarrow> mapping_of (h @ ext) v = Some m"
  unfolding mapping_of_Some using deref_append deref_Some_valid by fastforce

lemma mapping_of_truthy: "mapping_of h v = Some m \<Longrightarrow> truthy h v = Inr (m \<noteq> [])"
  by (cases v) (auto simp: mapping_of_def truthy_def split: option.splits py_object.splits)

lemma mapping_of_testable: "mapping_of h v = Some m \<Longrightarrow> testable h v"
  by (simp add: testable_def mapping_of_truthy)

lemma populated_truthy: "populated h v \<Longrightarrow> truthy h v = Inr True"
  by (auto simp: populated_def mapping_of_truthy split: option.splits)

lemma testable_cases: "testable h v \<Longrightarrow> truthy h v = Inr True \<or> truthy h v = Inr False"
  by (cases "truthy h v") (auto simp: testable_def)

lemma testable_None: "testable h PyNone"
  by (simp add: testable_def truthy_def)

lemma truthy_None: "truthy h PyNone = Inr False"
  by (simp add: truthy_def)

lemma truthy_Inl:
  "truthy h v = Inl e \<longleftrightarrow> (\<exists>a. v = PyRef a \<and> deref h a = Some (PyOther (Inl e)))"
  by (cases v) (auto simp: truthy_def split: option.splits py_object.splits)

lemma testable_iff:
  "testable h v \<longleftrightarrow> (\<forall>a e. v = PyRef a \<longrightarrow> deref h a \<noteq> Some (PyOther (Inl e)))"
proof -
  have "testable h v \<longleftrightarrow> (\<forall>e. truthy h v \<noteq> Inl e)"
    by (cases "truthy h v") (simp_all add: testable_def)
  then show ?thesis
    by (auto simp: truthy_Inl)
qed

lemma truthy_Inl_replicate:
  "truthy (h @ replicate k (PyDict [])) v = Inl e \<longleftrightarrow> truthy h v = Inl e"
  unfolding truthy_Inl by (auto simp: deref_def nth_append split: if_splits)

lemma populated_valid: "populated h v \<Longrightarrow> valid h v"
  by (auto simp: populated_def dest: mapping_of_valid split: option.splits)

section \<open>Binding the arguments of a call\<close>

text \<open>
  Keyword arguments and their defaults, and the conditions under which the generated
  \<^verbatim>\<open>__init__\<close> accepts its arguments.
\<close>

lemma kwarg_Cons:
  "kwarg ((name, v) # kw) name' d = (if name' = name then v else kwarg kw name' d)"
  by (simp add: kwarg_def)

lemma kwarg_omitted: "name \<notin> fst ` set kw \<Longrightarrow> kwarg kw name d = d"
  by (simp add: kwarg_def map_of_eq_None_iff [THEN iffD2])

lemma kwarg_supplied:
  assumes "name \<in> set (map fst kw)"
  shows "\<exists>v. map_of kw name = Some v \<and> kwarg kw name d = v \<and> v \<in> snd ` set kw"
proof -
  from assms obtain v where v: "map_of kw name = Some v"
    by (cases "map_of kw name") (auto simp: map_of_eq_None_iff)
  then have "(name, v) \<in> set kw" by (rule map_of_SomeD)
  then have "v \<in> snd ` set kw" by force
  with v show ?thesis by (simp add: kwarg_def)
qed

lemma valid_kwarg:
  assumes "\<forall>v \<in> snd ` set kw. valid h v"
  shows "valid h (kwarg kw name PyNone)"
proof (cases "map_of kw name")
  case None
  then show ?thesis by (simp add: kwarg_def valid_def)
next
  case (Some v)
  then have "(name, v) \<in> set kw" by (rule map_of_SomeD)
  then have "v \<in> snd ` set kw" by force
  with assms Some show ?thesis by (auto simp: kwarg_def)
qed

lemma bind_init_four:
  "bind_init [a, b, c, d] [] =
     Inr \<lparr>class_crosswalk = a, class_accessors = b, derived_handles = c, wrapper_classes = d\<rparr>"
  by (simp add: bind_init_def Config_fields_def)

lemma bind_init_Inr:
  assumes "bind_init pos kw = Inr c"
  shows "length pos \<le> length Config_fields"
    and "distinct (map fst kw)"
    and "set (map fst kw) = set (drop (length pos) Config_fields)"
proof -
  from assms have 1: "\<not> length Config_fields < length pos"
    and 2: "distinct (map fst kw)"
    and 3: "\<forall>k \<in> set (map fst kw). k \<in> set Config_fields"
    and 4: "\<forall>k \<in> set (map fst kw). k \<notin> set (take (length pos) Config_fields)"
    and 5: "\<forall>n \<in> set (drop (length pos) Config_fields). n \<in> set (map fst kw)"
    by (simp_all add: bind_init_def Let_def list_ex_iff split: if_splits)
  have "set Config_fields =
      set (take (length pos) Config_fields) \<union> set (drop (length pos) Config_fields)"
    by (metis append_take_drop_id set_append)
  with 3 4 5 show "set (map fst kw) = set (drop (length pos) Config_fields)"
    by blast
  from 1 show "length pos \<le> length Config_fields" by simp
  from 2 show "distinct (map fst kw)" .
qed

lemma bind_init_count:
  assumes "bind_init pos kw = Inr c"
  shows "length pos + length kw = 4"
proof -
  have d: "distinct (drop (length pos) Config_fields)"
    by (rule distinct_drop) (simp add: Config_fields_def)
  have "length kw = card (set (map fst kw))"
    using distinct_card [OF bind_init_Inr(2) [OF assms]] by simp
  also have "\<dots> = card (set (drop (length pos) Config_fields))"
    by (simp only: bind_init_Inr(3) [OF assms])
  also have "\<dots> = length Config_fields - length pos"
    using d by (simp add: distinct_card)
  finally show ?thesis
    using bind_init_Inr(1) [OF assms] by (simp add: Config_fields_def)
qed

lemma bind_init_unknown_keyword:
  assumes "k \<in> fst ` set kw" and "k \<notin> set Config_fields"
  shows "bind_init pos kw = Inl TypeError"
  using assms by (auto simp: bind_init_def Let_def list_ex_iff)

section \<open>Creating the class and its instances\<close>

text \<open>
  What executing the class body and calling the class leave in the store.
\<close>

lemma define_Config_eq:
  "define_Config h =
     (\<lparr>ret_type_crosswalk = PyRef (length h), prop_type_crosswalk = PyRef (Suc (length h))\<rparr>,
      h @ [PyDict ret_type_crosswalk_items, PyDict prop_type_crosswalk_items])"
  by (simp add: define_Config_def alloc_def)

lemma define_Config_mappings:
  assumes "define_Config h0 = (cls, h1)"
  shows "mapping_of (h1 @ e) (ret_type_crosswalk cls) = Some ret_type_crosswalk_items"
    and "mapping_of (h1 @ e) (prop_type_crosswalk cls) = Some prop_type_crosswalk_items"
  using assms by (auto simp: define_Config_eq mapping_of_def deref_def nth_append)

lemma define_Config_ext: "\<exists>e. snd (define_Config h) = h @ e"
  by (simp add: define_Config_eq)

lemma Config_new_four:
  "Config_new h [a, b, c, d] [] =
     (Inr (PyRef (length h)),
      h @ [PyConfig \<lparr>class_crosswalk = a, class_accessors = b, derived_handles = c, wrapper_classes = d\<rparr>])"
  by (simp add: Config_new_def bind_init_four alloc_def)

lemma Config_new_Inr:
  assumes "Config_new h pos kw = (Inr self, h')"
  shows "\<exists>c. bind_init pos kw = Inr c \<and> self = PyRef (length h) \<and> h' = h @ [PyConfig c]"
  using assms by (cases "bind_init pos kw") (auto simp: Config_new_def alloc_def)

lemma Config_new_ext: "\<exists>e. snd (Config_new h pos kw) = h @ e"
  by (cases "bind_init pos kw") (simp_all add: Config_new_def alloc_def)

lemma Config_getattr_instance:
  assumes "deref h a = Some (PyConfig c)"
  shows "Config_getattr cls h (PyRef a) name =
      (if name = ''class_crosswalk'' then Inr (class_crosswalk c)
       else if name = ''class_accessors'' then Inr (class_accessors c)
       else if name = ''derived_handles'' then Inr (derived_handles c)
       else if name = ''wrapper_classes'' then Inr (wrapper_classes c)
       else if name = ''ret_type_crosswalk'' then Inr (ret_type_crosswalk cls)
       else if name = ''prop_type_crosswalk'' then Inr (prop_type_crosswalk cls)
       else Inl AttributeError)"
  unfolding Config_getattr_def py_value.case assms by simp

lemma all_fields_empty:
  assumes "deref H s = Some (PyConfig c)"
    and "mapping_of H (class_crosswalk c) = Some []"
    and "mapping_of H (class_accessors c) = Some []"
    and "mapping_of H (derived_handles c) = Some []"
    and "mapping_of H (wrapper_classes c) = Some []"
  shows "\<forall>name \<in> set Config_fields. \<exists>f.
           Config_getattr cls H (PyRef s) name = Inr f \<and> mapping_of H f = Some []"
  unfolding Config_fields_def using assms(2-) by (simp add: Config_getattr_instance [OF assms(1)])

section \<open>The factory\<close>

text \<open>
  The outcome of one \<^verbatim>\<open>x or {}\<close> and of the argument list: the store only grows, by
  empty dictionaries; an error is the error of an argument's truth test; and when
  every truth test returns, so does the evaluation.
\<close>

lemma or_empty_dict_append:
  "valid h x \<Longrightarrow>
   or_empty_dict (h @ ext) x =
     (case truthy h x of
        Inl e \<Rightarrow> (Inl e, h @ ext)
      | Inr b \<Rightarrow>
          if b then (Inr x, h @ ext)
          else (Inr (PyRef (length h + length ext)), h @ ext @ [PyDict []]))"
  by (simp add: or_empty_dict_def truthy_append alloc_def split: sum.splits)

lemma or_empty_dict_ext: "\<exists>r e. or_empty_dict h x = (r, h @ e)"
  by (simp add: or_empty_dict_def alloc_def split: sum.splits)

lemma or_empty_dict_replicate:
  "\<exists>r j. or_empty_dict (h @ replicate k (PyDict [])) x = (r, h @ replicate j (PyDict [])) \<and>
     (\<forall>e. r = Inl e \<longleftrightarrow> truthy h x = Inl e)"
proof (cases "truthy (h @ replicate k (PyDict [])) x")
  case (Inl e)
  then have "or_empty_dict (h @ replicate k (PyDict [])) x = (Inl e, h @ replicate k (PyDict []))"
    by (simp add: or_empty_dict_def)
  moreover from Inl have "truthy h x = Inl e"
    by (simp add: truthy_Inl_replicate)
  ultimately show ?thesis by auto
next
  case (Inr b)
  then have n: "\<And>e. truthy h x \<noteq> Inl e"
    using truthy_Inl_replicate [of h k x] by auto
  show ?thesis
  proof (cases b)
    case True
    with Inr have "or_empty_dict (h @ replicate k (PyDict [])) x = (Inr x, h @ replicate k (PyDict []))"
      by (simp add: or_empty_dict_def)
    with n show ?thesis by auto
  next
    case False
    with Inr have "or_empty_dict (h @ replicate k (PyDict [])) x =
        (Inr (PyRef (length h + k)), h @ replicate (Suc k) (PyDict []))"
      by (simp add: or_empty_dict_def alloc_def replicate_append_same)
    with n show ?thesis by blast
  qed
qed

lemma or_empty_dict_same_or_falsy:
  "same_or_falsy h x y \<Longrightarrow> or_empty_dict (h @ e) x = or_empty_dict (h @ e) y"
  by (auto simp: same_or_falsy_def or_empty_dict_def truthy_append)

lemma eval_args_replicate:
  "\<exists>r j. eval_args (h @ replicate k (PyDict [])) xs = (r, h @ replicate j (PyDict [])) \<and>
     (\<forall>e. r = Inl e \<longrightarrow> (\<exists>x \<in> set xs. truthy h x = Inl e)) \<and>
     ((\<forall>x \<in> set xs. testable h x) \<longrightarrow> (\<exists>as. r = Inr as \<and> length as = length xs)) \<and>
     (\<forall>as. r = Inr as \<longrightarrow> (\<forall>x \<in> set xs. testable h x))"
proof (induction xs arbitrary: k)
  case Nil
  show ?case by auto
next
  case (Cons x xs)
  obtain r1 j1 where 1: "or_empty_dict (h @ replicate k (PyDict [])) x = (r1, h @ replicate j1 (PyDict []))"
    and e1: "\<forall>e. r1 = Inl e \<longleftrightarrow> truthy h x = Inl e"
    using or_empty_dict_replicate by blast
  show ?case
  proof (cases r1)
    case (Inl e)
    with 1 have "eval_args (h @ replicate k (PyDict [])) (x # xs) = (Inl e, h @ replicate j1 (PyDict []))"
      by simp
    moreover from Inl e1 have t: "truthy h x = Inl e" by simp
    then have "\<not> testable h x" by (simp add: testable_def)
    ultimately show ?thesis using t by auto
  next
    case (Inr a)
    from Cons.IH [of j1] obtain r2 j2
      where 2: "eval_args (h @ replicate j1 (PyDict [])) xs = (r2, h @ replicate j2 (PyDict []))"
        and e2: "\<forall>e. r2 = Inl e \<longrightarrow> (\<exists>x \<in> set xs. truthy h x = Inl e)"
        and s2: "(\<forall>x \<in> set xs. testable h x) \<longrightarrow> (\<exists>as. r2 = Inr as \<and> length as = length xs)"
        and t2: "\<forall>as. r2 = Inr as \<longrightarrow> (\<forall>x \<in> set xs. testable h x)"
      by blast
    from Inr e1 have tx: "testable h x"
      by (cases "truthy h x") (auto simp: testable_def)
    show ?thesis
    proof (cases r2)
      case (Inl e)
      with 1 2 Inr have "eval_args (h @ replicate k (PyDict [])) (x # xs) = (Inl e, h @ replicate j2 (PyDict []))"
        by simp
      moreover from Inl e2 have "\<exists>x \<in> set xs. truthy h x = Inl e" by simp
      moreover from Inl s2 have "\<not> (\<forall>x \<in> set xs. testable h x)" by auto
      ultimately show ?thesis by auto
    next
      case as: (Inr as)
      with 1 2 Inr have "eval_args (h @ replicate k (PyDict [])) (x # xs) = (Inr (a # as), h @ replicate j2 (PyDict []))"
        by simp
      moreover have "length (a # as) = length (x # xs)" if "\<forall>x \<in> set xs. testable h x"
        using that s2 as by auto
      moreover from as t2 tx have "\<forall>y \<in> set (x # xs). testable h y" by simp
      ultimately show ?thesis by auto
    qed
  qed
qed

lemma from_parsed_eval_args:
  "from_parsed h cc ca dh wc =
     (case eval_args h [cc, ca, dh, wc] of
        (Inl e, h') \<Rightarrow> (Inl e, h')
      | (Inr as, h') \<Rightarrow> Config_new h' as [])"
  by (simp add: from_parsed_def split: prod.splits sum.splits)

lemma from_parsed_ext: "\<exists>r e. from_parsed h cc ca dh wc = (r, h @ e)"
proof -
  obtain r j where 1: "eval_args h [cc, ca, dh, wc] = (r, h @ replicate j (PyDict []))"
    using eval_args_replicate [of h 0 "[cc, ca, dh, wc]"] by auto
  show ?thesis
  proof (cases r)
    case (Inl e)
    with 1 show ?thesis by (simp add: from_parsed_eval_args)
  next
    case (Inr as)
    obtain e where "snd (Config_new (h @ replicate j (PyDict [])) as []) = (h @ replicate j (PyDict [])) @ e"
      using Config_new_ext by blast
    with 1 Inr show ?thesis
      by (cases "Config_new (h @ replicate j (PyDict [])) as []") (simp add: from_parsed_eval_args)
  qed
qed

lemma from_parsed_Inl:
  assumes "from_parsed h x1 x2 x3 x4 = (Inl e, h')"
  shows "\<exists>x \<in> set [x1, x2, x3, x4]. truthy h x = Inl e"
proof -
  obtain r j where 1: "eval_args h [x1, x2, x3, x4] = (r, h @ replicate j (PyDict []))"
    and 2: "\<forall>e. r = Inl e \<longrightarrow> (\<exists>x \<in> set [x1, x2, x3, x4]. truthy h x = Inl e)"
    using eval_args_replicate [of h 0 "[x1, x2, x3, x4]"] by auto
  show ?thesis
  proof (cases r)
    case (Inl e')
    with 1 assms have "e' = e" by (simp add: from_parsed_eval_args)
    with Inl 2 show ?thesis by blast
  next
    case (Inr as)
    have "length as = 4"
      using 1 Inr by (auto simp: or_empty_dict_def alloc_def split: sum.splits prod.splits if_splits)
    then obtain a b c d where "as = [a, b, c, d]"
      by (auto simp: length_Suc_conv numeral_eq_Suc)
    with 1 Inr assms show ?thesis
      by (simp add: from_parsed_eval_args Config_new_four)
  qed
qed

lemma from_parsed_Inr:
  assumes "from_parsed h x1 x2 x3 x4 = (Inr s, h')"
  shows "testable h x1" "testable h x2" "testable h x3" "testable h x4"
proof -
  obtain r j where 1: "eval_args h [x1, x2, x3, x4] = (r, h @ replicate j (PyDict []))"
    and 2: "\<forall>as. r = Inr as \<longrightarrow> (\<forall>x \<in> set [x1, x2, x3, x4]. testable h x)"
    using eval_args_replicate [of h 0 "[x1, x2, x3, x4]"] by auto
  from 1 assms obtain as where "r = Inr as"
    by (cases r) (simp_all add: from_parsed_eval_args)
  with 2 show "testable h x1" "testable h x2" "testable h x3" "testable h x4"
    by simp_all
qed

lemma from_parsed_succeeds:
  assumes "testable h x1" "testable h x2" "testable h x3" "testable h x4"
  shows "\<exists>a c h'. from_parsed h x1 x2 x3 x4 = (Inr (PyRef a), h') \<and> deref h' a = Some (PyConfig c)"
proof -
  obtain r j where 1: "eval_args h [x1, x2, x3, x4] = (r, h @ replicate j (PyDict []))"
    and 2: "(\<forall>x \<in> set [x1, x2, x3, x4]. testable h x) \<longrightarrow>
        (\<exists>as. r = Inr as \<and> length as = length [x1, x2, x3, x4])"
    using eval_args_replicate [of h 0 "[x1, x2, x3, x4]"] by auto
  from 2 assms obtain as where r: "r = Inr as" and "length as = 4"
    by auto
  then obtain a b c d where as: "as = [a, b, c, d]"
    by (auto simp: length_Suc_conv numeral_eq_Suc)
  define H where "H = h @ replicate j (PyDict [])"
  have "from_parsed h x1 x2 x3 x4 =
      (Inr (PyRef (length H)),
       H @ [PyConfig \<lparr>class_crosswalk = a, class_accessors = b,
                       derived_handles = c, wrapper_classes = d\<rparr>])"
    using 1 by (simp add: from_parsed_eval_args r as Config_new_four H_def)
  moreover have "deref (H @ [PyConfig \<lparr>class_crosswalk = a, class_accessors = b,
      derived_handles = c, wrapper_classes = d\<rparr>]) (length H) =
      Some (PyConfig \<lparr>class_crosswalk = a, class_accessors = b,
        derived_handles = c, wrapper_classes = d\<rparr>)"
    by (simp add: deref_def)
  ultimately show ?thesis by blast
qed

lemma from_parsed_eq:
  assumes "valid h cc" "valid h ca" "valid h dh" "valid h wc"
    and "testable h cc" "testable h ca" "testable h dh" "testable h wc"
  shows "from_parsed h cc ca dh wc =
     (Inr (PyRef (length h + length (fresh h [cc, ca, dh, wc]))),
      h @ fresh h [cc, ca, dh, wc] @
        [PyConfig \<lparr>class_crosswalk = keep h [] cc, class_accessors = keep h [cc] ca,
                   derived_handles = keep h [cc, ca] dh, wrapper_classes = keep h [cc, ca, dh] wc\<rparr>])"
proof -
  have 1: "or_empty_dict h cc = (Inr (keep h [] cc), h @ fresh h [cc])"
    using or_empty_dict_append [OF assms(1), of "[]"] testable_cases [OF assms(5)]
    by (auto simp: keep_def fresh_def)
  have 2: "or_empty_dict (h @ fresh h [cc]) ca = (Inr (keep h [cc] ca), h @ fresh h [cc, ca])"
    using or_empty_dict_append [OF assms(2), of "fresh h [cc]"] testable_cases [OF assms(6)]
    by (auto simp: keep_def fresh_def)
  have 3: "or_empty_dict (h @ fresh h [cc, ca]) dh =
      (Inr (keep h [cc, ca] dh), h @ fresh h [cc, ca, dh])"
    using or_empty_dict_append [OF assms(3), of "fresh h [cc, ca]"] testable_cases [OF assms(7)]
    by (auto simp: keep_def fresh_def)
  have 4: "or_empty_dict (h @ fresh h [cc, ca, dh]) wc =
      (Inr (keep h [cc, ca, dh] wc), h @ fresh h [cc, ca, dh, wc])"
    using or_empty_dict_append [OF assms(4), of "fresh h [cc, ca, dh]"] testable_cases [OF assms(8)]
    by (auto simp: keep_def fresh_def)
  show ?thesis
    by (simp add: from_parsed_def 1 2 3 4 Config_new_four)
qed

lemma eval_args_same_or_falsy:
  "list_all2 (same_or_falsy h) xs ys \<Longrightarrow> eval_args (h @ e) xs = eval_args (h @ e) ys"
proof (induction xs ys arbitrary: e rule: list_all2_induct)
  case Nil
  show ?case by simp
next
  case (Cons x xs y ys)
  have 1: "or_empty_dict (h @ e) x = or_empty_dict (h @ e) y"
    using Cons.hyps(1) by (rule or_empty_dict_same_or_falsy)
  obtain r e' where 2: "or_empty_dict (h @ e) y = (r, (h @ e) @ e')"
    using or_empty_dict_ext by blast
  show ?case
  proof (cases r)
    case (Inl err)
    with 1 2 show ?thesis by simp
  next
    case (Inr a)
    with 1 2 Cons.IH [of "e @ e'"] show ?thesis by simp
  qed
qed

lemma from_parsed_same_or_falsy:
  assumes "same_or_falsy h x1 y1" "same_or_falsy h x2 y2"
    "same_or_falsy h x3 y3" "same_or_falsy h x4 y4"
  shows "from_parsed h x1 x2 x3 x4 = from_parsed h y1 y2 y3 y4"
  using eval_args_same_or_falsy [of h "[x1, x2, x3, x4]" "[y1, y2, y3, y4]" "[]"] assms
  by (simp add: from_parsed_eval_args)

lemma from_parsed_call_kw:
  assumes "distinct (map fst kw)" "set (map fst kw) \<subseteq> set Config_fields"
  shows "from_parsed_call h [] kw =
     from_parsed h (kwarg kw ''class_crosswalk'' PyNone) (kwarg kw ''class_accessors'' PyNone)
       (kwarg kw ''derived_handles'' PyNone) (kwarg kw ''wrapper_classes'' PyNone)"
  using assms by (auto simp: from_parsed_call_def list_ex_iff)

lemma from_parsed_call_ext: "\<exists>e. snd (from_parsed_call h pos kw) = h @ e"
proof -
  obtain r e where "from_parsed h (kwarg kw ''class_crosswalk'' PyNone)
       (kwarg kw ''class_accessors'' PyNone) (kwarg kw ''derived_handles'' PyNone)
       (kwarg kw ''wrapper_classes'' PyNone) = (r, h @ e)"
    using from_parsed_ext by blast
  then show ?thesis
    by (simp add: from_parsed_call_def)
qed

lemma from_parsed_call_grows:
  assumes "from_parsed_call h pos kw = (r, h')"
  shows "\<exists>new. h' = h @ new"
  using from_parsed_call_ext [of h pos kw] assms by simp

lemma from_parsed_call_unknown_keyword:
  assumes "k \<in> fst ` set kw" and "k \<notin> set Config_fields"
  shows "from_parsed_call h pos kw = (Inl TypeError, h)"
  using assms by (auto simp: from_parsed_call_def list_ex_iff)

lemma from_parsed_call_nil:
  "from_parsed_call h [] [] =
     (Inr (PyRef (length h + 4)),
      h @ [PyDict [], PyDict [], PyDict [], PyDict [],
           PyConfig \<lparr>class_crosswalk = PyRef (length h), class_accessors = PyRef (length h + 1),
                     derived_handles = PyRef (length h + 2), wrapper_classes = PyRef (length h + 3)\<rparr>])"
proof -
  have v: "valid h PyNone" by (simp add: valid_def)
  note t = testable_None [of h]
  show ?thesis
    by (simp add: from_parsed_call_def kwarg_def from_parsed_eq [OF v v v v t t t t]
        fresh_def keep_def truthy_None)
qed

lemma testable_kwarg:
  assumes "\<forall>v \<in> snd ` set kw. testable h v"
  shows "testable h (kwarg kw name PyNone)"
proof (cases "map_of kw name")
  case None
  then show ?thesis by (simp add: kwarg_def testable_None)
next
  case (Some v)
  then have "(name, v) \<in> set kw" by (rule map_of_SomeD)
  then have "v \<in> snd ` set kw" by force
  with assms Some show ?thesis by (auto simp: kwarg_def)
qed

lemma truthy_kwarg_Inl:
  assumes "truthy h (kwarg kw name PyNone) = Inl e"
  shows "\<exists>v \<in> snd ` set kw. truthy h v = Inl e"
proof (cases "map_of kw name")
  case None
  with assms show ?thesis by (simp add: kwarg_def truthy_None)
next
  case (Some v)
  then have "(name, v) \<in> set kw" by (rule map_of_SomeD)
  then have "v \<in> snd ` set kw" by force
  with assms Some show ?thesis by (auto simp: kwarg_def)
qed

lemma deref_keep_fresh:
  "truthy h x = Inr False \<Longrightarrow>
   deref (h @ fresh h (before @ x # after) @ ext) (length h + length (fresh h before)) = Some (PyDict [])"
  by (simp add: fresh_def deref_def nth_append)

lemma mapping_of_keep_fresh:
  "truthy h x = Inr False \<Longrightarrow>
   mapping_of (h @ fresh h (before @ x # after) @ ext) (keep h before x) = Some []"
  using deref_keep_fresh [of h x before after ext] by (simp add: keep_def mapping_of_def)

lemma mapping_of_keep:
  assumes "\<forall>v \<in> snd ` set kw. is_mapping h v"
  shows "mapping_of (h @ fresh h (before @ kwarg kw name PyNone # after) @ ext)
           (keep h before (kwarg kw name PyNone)) =
         (case map_of kw name of None \<Rightarrow> Some [] | Some v \<Rightarrow> mapping_of h v)"
proof (cases "map_of kw name")
  case None
  then have x: "kwarg kw name PyNone = PyNone" by (simp add: kwarg_def)
  from mapping_of_keep_fresh [OF truthy_None, of h before after ext] show ?thesis
    by (simp add: x None)
next
  case (Some v)
  then have x: "kwarg kw name PyNone = v" by (simp add: kwarg_def)
  from Some have "(name, v) \<in> set kw" by (rule map_of_SomeD)
  then have "v \<in> snd ` set kw" by force
  with assms obtain m where m: "mapping_of h v = Some m" by (auto simp: is_mapping_def)
  show ?thesis
  proof (cases "m = []")
    case True
    with m have f: "truthy h v = Inr False" by (simp add: mapping_of_truthy)
    from mapping_of_keep_fresh [OF this, of before after ext] show ?thesis
      by (simp add: x Some m True)
  next
    case False
    with m have t: "truthy h v = Inr True" by (simp add: mapping_of_truthy)
    from mapping_of_append [OF m] show ?thesis
      by (simp add: x Some keep_def t m)
  qed
qed

section \<open>Equality of values\<close>

text \<open>
  A comparison that succeeded still succeeds after allocation, equal values have the
  same truth value, and two calls of the factory on similar arguments return equal
  instances.
\<close>

lemma all_true_iff: "all_true rs = Some True \<longleftrightarrow> (\<forall>r \<in> set rs. r = Some True)"
  by (induction rs rule: all_true.induct) auto

lemma py_eq_empty_dicts:
  assumes "deref H p = Some (PyDict [])" and "deref H q = Some (PyDict [])"
  shows "py_eq (Suc n) H (PyRef p) (PyRef q) = Some True"
  using assms by simp

lemma py_eq_Config:
  assumes "deref H a = Some (PyConfig c1)" and "deref H b = Some (PyConfig c2)"
    and "py_eq n H (class_crosswalk c1) (class_crosswalk c2) = Some True"
    and "py_eq n H (class_accessors c1) (class_accessors c2) = Some True"
    and "py_eq n H (derived_handles c1) (derived_handles c2) = Some True"
    and "py_eq n H (wrapper_classes c1) (wrapper_classes c2) = Some True"
  shows "py_eq (Suc n) H (PyRef a) (PyRef b) = Some True"
  using assms by simp

lemma py_eq_True_refs:
  assumes "py_eq (Suc n) h (PyRef a) (PyRef b) = Some True" and "a \<noteq> b"
  shows "a < length h \<and> b < length h"
  using assms
  by (auto simp: deref_def split: option.splits py_object.splits if_splits)

lemma py_eq_True_truthy:
  assumes "py_eq n h x y = Some True"
  shows "truthy h x = truthy h y"
proof (cases n)
  case 0
  with assms show ?thesis by simp
next
  case (Suc m)
  show ?thesis
  proof (cases "x = y")
    case True
    then show ?thesis by simp
  next
    case False
    with assms Suc show ?thesis
      by (cases x; cases y)
        (auto simp: truthy_def split: option.splits py_object.splits if_splits)
  qed
qed

lemma py_eq_True_valid:
  assumes "py_eq n h x y = Some True" and "valid h x"
  shows "valid h y"
proof (cases n)
  case 0
  with assms show ?thesis by simp
next
  case (Suc m)
  show ?thesis
  proof (cases "x = y")
    case True
    with assms show ?thesis by simp
  next
    case False
    show ?thesis
    proof (cases y)
      case (PyRef b)
      with assms(1) Suc False obtain a where "x = PyRef a"
        by (cases x) auto
      with assms(1) Suc False PyRef py_eq_True_refs [of m h a b] show ?thesis
        by (simp add: valid_def)
    qed (simp_all add: valid_def)
  qed
qed

lemma entry_eq_mono:
  assumes "\<And>u v. f u v = Some True \<Longrightarrow> g u v = Some True"
    and "(case find P d of None \<Rightarrow> Some False | Some (k', v') \<Rightarrow> f v v') = Some True"
  shows "(case find P d of None \<Rightarrow> Some False | Some (k', v') \<Rightarrow> g v v') = Some True"
  using assms by (auto split: option.splits)

lemma py_eq_True_append:
  "py_eq n h x y = Some True \<Longrightarrow> py_eq n (h @ ext) x y = Some True"
proof (induction n arbitrary: x y)
  case 0
  then show ?case by simp
next
  case (Suc n)
  show ?case
  proof (cases "x = y")
    case True
    then show ?thesis by simp
  next
    case ne: False
    show ?thesis
    proof (cases "\<exists>a b. x = PyRef a \<and> y = PyRef b")
      case False
      with Suc.prems ne show ?thesis
        by (cases x; cases y) simp_all
    next
      case True
      then obtain a b where x: "x = PyRef a" and y: "y = PyRef b" by blast
      from ne x y have ab: "a \<noteq> b" by simp
      note p = Suc.prems [unfolded x y]
      from py_eq_True_refs [OF p ab]
      have da: "deref (h @ ext) a = deref h a" and db: "deref (h @ ext) b = deref h b"
        by (simp_all add: deref_append)
      obtain oa ob where oa: "deref h a = Some oa" and ob: "deref h b = Some ob"
        using py_eq_True_refs [OF p ab] by (simp add: deref_def)
      show ?thesis
      proof (cases oa)
        case (PyDict d1)
        show ?thesis
        proof (cases ob)
          case d2: (PyDict d2)
          from p ab have len: "length d1 = length d2"
            by (simp add: oa ob PyDict d2 split: if_splits)
          let ?F = "\<lambda>H (k, v).
              (case find (\<lambda>(k', v'). k' = k \<or> scalar_eq k' k) d2 of
                 None \<Rightarrow> Some False
               | Some (k', v') \<Rightarrow> py_eq n H v v')"
          from len p ab have all: "\<forall>r \<in> set d1. ?F h r = Some True"
            by (simp add: oa ob PyDict d2 all_true_iff)
          have "\<forall>r \<in> set d1. ?F (h @ ext) r = Some True"
          proof
            fix r assume r: "r \<in> set d1"
            obtain k v where kv: "r = (k, v)" by (cases r)
            from all r kv have "?F h (k, v) = Some True"
              by blast
            then have "?F (h @ ext) (k, v) = Some True"
              unfolding prod.case by (rule entry_eq_mono [rotated]) (rule Suc.IH)
            then show "?F (h @ ext) r = Some True"
              by (simp add: kv)
          qed
          with len ab show ?thesis
            by (simp add: x y da db oa ob PyDict d2 all_true_iff)
        qed (use p ab in \<open>simp_all add: oa ob PyDict\<close>)
      next
        case (PyList l1)
        show ?thesis
        proof (cases ob)
          case l2: (PyList l2)
          from p ab show ?thesis
            by (auto simp: x y da db oa ob PyList l2 all_true_iff Suc.IH split: if_splits)
        qed (use p ab in \<open>simp_all add: oa ob PyList\<close>)
      next
        case (PyConfig c1)
        show ?thesis
        proof (cases ob)
          case c2: (PyConfig c2)
          from p ab show ?thesis
            by (auto simp: x y da db oa ob PyConfig c2 all_true_iff Suc.IH split: if_splits)
        qed (use p ab in \<open>simp_all add: oa ob PyConfig\<close>)
      next
        case (PyOther t)
        with p ab show ?thesis
          by (cases ob) (simp_all add: oa ob)
      qed
    qed
  qed
qed

lemma similar_refl: "valid H x \<Longrightarrow> similar n H x x"
  by (simp add: similar_def)

lemma similar_py_eq:
  assumes "valid H x" and "py_eq (Suc n) H x y = Some True"
  shows "similar n H x y"
  using assms py_eq_True_truthy [OF assms(2)] py_eq_True_valid [OF assms(2,1)]
  by (simp add: similar_def)

lemma similar_falsy:
  assumes "valid H y" and "truthy H x = Inr False" and "truthy H y = Inr False"
  shows "similar n H x y"
  using assms by (simp add: similar_def)

lemma keep_eq:
  assumes vx: "valid h x"
    and H: "H = h @ fresh h (bx @ x # ax) @ e1"
    and sim: "similar n H x y"
  shows "py_eq (Suc n) (H @ fresh H (cy @ y # ay) @ e2) (keep h bx x) (keep H cy y) = Some True"
proof (cases "truthy h x = Inr False")
  case False
  have tx: "truthy H x \<noteq> Inr False" unfolding H using False by (simp add: truthy_append [OF vx])
  with sim have ty: "truthy H y \<noteq> Inr False" and eq: "py_eq (Suc n) H x y = Some True"
    by (simp_all add: similar_def)
  from py_eq_True_append [OF eq] False ty show ?thesis
    by (simp add: keep_def)
next
  case True
  have tx: "truthy H x = Inr False" unfolding H using True by (simp add: truthy_append [OF vx])
  with sim have ty: "truthy H y = Inr False"
    by (simp add: similar_def)
  have "deref H (length h + length (fresh h bx)) = Some (PyDict [])"
    unfolding H using True by (rule deref_keep_fresh)
  then have 1: "deref (H @ fresh H (cy @ y # ay) @ e2) (length h + length (fresh h bx)) = Some (PyDict [])"
    by (rule deref_ext) blast
  have 2: "deref (H @ fresh H (cy @ y # ay) @ e2) (length H + length (fresh H cy)) = Some (PyDict [])"
    using ty by (rule deref_keep_fresh)
  from py_eq_empty_dicts [OF 1 2] True ty show ?thesis
    by (simp add: keep_def)
qed

lemma from_parsed_twice:
  assumes v: "valid h x1" "valid h x2" "valid h x3" "valid h x4"
    and c1: "from_parsed h x1 x2 x3 x4 = (Inr s1, h1)"
    and c2: "from_parsed (h1 @ e) y1 y2 y3 y4 = (Inr s2, h2)"
    and sim: "similar n (h1 @ e) x1 y1" "similar n (h1 @ e) x2 y2"
      "similar n (h1 @ e) x3 y3" "similar n (h1 @ e) x4 y4"
  shows "py_eq (Suc (Suc n)) h2 s1 s2 = Some True"
proof -
  define F1 where "F1 = fresh h [x1, x2, x3, x4]"
  define k1 where "k1 = \<lparr>class_crosswalk = keep h [] x1, class_accessors = keep h [x1] x2,
      derived_handles = keep h [x1, x2] x3, wrapper_classes = keep h [x1, x2, x3] x4\<rparr>"
  define H where "H = h1 @ e"
  define F2 where "F2 = fresh H [y1, y2, y3, y4]"
  define k2 where "k2 = \<lparr>class_crosswalk = keep H [] y1, class_accessors = keep H [y1] y2,
      derived_handles = keep H [y1, y2] y3, wrapper_classes = keep H [y1, y2, y3] y4\<rparr>"
  note t = from_parsed_Inr [OF c1]
  have "from_parsed h x1 x2 x3 x4 = (Inr (PyRef (length h + length F1)), h @ F1 @ [PyConfig k1])"
    unfolding F1_def k1_def by (rule from_parsed_eq [OF v t])
  with c1 have s1: "s1 = PyRef (length h + length F1)" and h1: "h1 = h @ F1 @ [PyConfig k1]"
    by simp_all
  have HH: "H = h @ F1 @ ([PyConfig k1] @ e)"
    by (simp add: H_def h1)
  from sim have vy: "valid H y1" "valid H y2" "valid H y3" "valid H y4"
    by (simp_all add: similar_def H_def)
  note ty = from_parsed_Inr [OF c2 [folded H_def]]
  have "from_parsed H y1 y2 y3 y4 = (Inr (PyRef (length H + length F2)), H @ F2 @ [PyConfig k2])"
    unfolding F2_def k2_def by (rule from_parsed_eq [OF vy ty])
  with c2 have s2: "s2 = PyRef (length H + length F2)" and h2: "h2 = H @ F2 @ [PyConfig k2]"
    by (simp_all add: H_def)
  have "deref H (length h + length F1) = Some (PyConfig k1)"
    by (simp add: HH deref_def nth_append)
  then have d1: "deref h2 (length h + length F1) = Some (PyConfig k1)"
    unfolding h2 by (rule deref_ext) blast
  have d2: "deref h2 (length H + length F2) = Some (PyConfig k2)"
    unfolding h2 by (rule deref_instance)
  note HF = HH [unfolded F1_def]
  have f1: "py_eq (Suc n) h2 (class_crosswalk k1) (class_crosswalk k2) = Some True"
    using keep_eq [OF v(1), of H "[]" "[x2, x3, x4]" "[PyConfig k1] @ e" n y1 "[]" "[y2, y3, y4]" "[PyConfig k2]"]
      HF sim(1)
    by (simp add: h2 F2_def k1_def k2_def H_def)
  have f2: "py_eq (Suc n) h2 (class_accessors k1) (class_accessors k2) = Some True"
    using keep_eq [OF v(2), of H "[x1]" "[x3, x4]" "[PyConfig k1] @ e" n y2 "[y1]" "[y3, y4]" "[PyConfig k2]"]
      HF sim(2)
    by (simp add: h2 F2_def k1_def k2_def H_def)
  have f3: "py_eq (Suc n) h2 (derived_handles k1) (derived_handles k2) = Some True"
    using keep_eq [OF v(3), of H "[x1, x2]" "[x4]" "[PyConfig k1] @ e" n y3 "[y1, y2]" "[y4]" "[PyConfig k2]"]
      HF sim(3)
    by (simp add: h2 F2_def k1_def k2_def H_def)
  have f4: "py_eq (Suc n) h2 (wrapper_classes k1) (wrapper_classes k2) = Some True"
    using keep_eq [OF v(4), of H "[x1, x2, x3]" "[]" "[PyConfig k1] @ e" n y4 "[y1, y2, y3]" "[]" "[PyConfig k2]"]
      HF sim(4)
    by (simp add: h2 F2_def k1_def k2_def H_def)
  show ?thesis
    unfolding s1 s2 by (rule py_eq_Config [OF d1 d2 f1 f2 f3 f4])
qed

section \<open>The fields of the new instance\<close>

text \<open>
  What the factory stores for one argument whose truth test returns: the argument
  itself when it is true, and otherwise a dictionary that did not exist before the
  call and is empty after it.
\<close>

lemma populated_testable: "populated h v \<Longrightarrow> testable h v"
  by (simp add: testable_def populated_truthy)

lemma field_outcome:
  assumes "testable h x"
    and "H = h @ fresh h (before @ x # after) @ ext"
    and "f = keep h before x"
  shows "if truthy h x = Inr True then f = x else \<not> valid h f \<and> mapping_of H f = Some []"
proof (cases "truthy h x = Inr True")
  case True
  with assms(3) show ?thesis by (simp add: keep_def)
next
  case False
  with testable_cases [OF assms(1)] have f: "truthy h x = Inr False" by blast
  from mapping_of_keep_fresh [OF f, of before after ext] f assms(2,3) show ?thesis
    by (simp add: keep_def valid_def)
qed

section \<open>Omitted and supplied arguments\<close>

text \<open>
  C1. A call of \<^verbatim>\<open>Config.from_parsed\<close> that passes mappings for some of the four
  keyword arguments and omits the others returns an instance in which every omitted
  field is an empty mapping and every other field has the entries of the mapping
  that was supplied for it. The keyword list \<open>kw\<close> ranges over all subsets of the
  four names; \<open>map_of kw name = None\<close> says that \<open>name\<close> is omitted.
\<close>

theorem from_parsed_omitted_subset:
  assumes "distinct (map fst kw)"
    and "set (map fst kw) \<subseteq> set Config_fields"
    and "\<forall>v \<in> snd ` set kw. is_mapping h v"
  shows "\<exists>self h'. from_parsed_call h [] kw = (Inr self, h') \<and>
           (\<forall>name \<in> set Config_fields. \<exists>f.
              Config_getattr cls h' self name = Inr f \<and>
              mapping_of h' f =
                (case map_of kw name of None \<Rightarrow> Some [] | Some v \<Rightarrow> mapping_of h v))"
proof -
  let ?cc = "kwarg kw ''class_crosswalk'' PyNone"
  let ?ca = "kwarg kw ''class_accessors'' PyNone"
  let ?dh = "kwarg kw ''derived_handles'' PyNone"
  let ?wc = "kwarg kw ''wrapper_classes'' PyNone"
  let ?e = "fresh h [?cc, ?ca, ?dh, ?wc]"
  let ?c = "\<lparr>class_crosswalk = keep h [] ?cc, class_accessors = keep h [?cc] ?ca,
             derived_handles = keep h [?cc, ?ca] ?dh, wrapper_classes = keep h [?cc, ?ca, ?dh] ?wc\<rparr>"
  let ?h' = "h @ ?e @ [PyConfig ?c]"
  let ?self = "PyRef (length h + length ?e)"
  have v: "\<forall>v \<in> snd ` set kw. valid h v"
    using assms(3) by (auto simp: is_mapping_def dest: mapping_of_valid)
  have t: "\<forall>v \<in> snd ` set kw. testable h v"
    using assms(3) by (auto simp: is_mapping_def dest: mapping_of_testable)
  note vk = valid_kwarg [OF v] and tk = testable_kwarg [OF t]
  have call: "from_parsed_call h [] kw = (Inr ?self, ?h')"
    by (simp only: from_parsed_call_kw [OF assms(1,2)] from_parsed_eq [OF vk vk vk vk tk tk tk tk])
  have d: "deref ?h' (length h + length ?e) = Some (PyConfig ?c)"
    by (rule deref_instance)
  note g = Config_getattr_instance [OF d]
  have m1: "mapping_of ?h' (keep h [] ?cc) =
      (case map_of kw ''class_crosswalk'' of None \<Rightarrow> Some [] | Some v \<Rightarrow> mapping_of h v)"
    using mapping_of_keep [OF assms(3), of "[]" "''class_crosswalk''" "[?ca, ?dh, ?wc]" "[PyConfig ?c]"]
    by simp
  have m2: "mapping_of ?h' (keep h [?cc] ?ca) =
      (case map_of kw ''class_accessors'' of None \<Rightarrow> Some [] | Some v \<Rightarrow> mapping_of h v)"
    using mapping_of_keep [OF assms(3), of "[?cc]" "''class_accessors''" "[?dh, ?wc]" "[PyConfig ?c]"]
    by simp
  have m3: "mapping_of ?h' (keep h [?cc, ?ca] ?dh) =
      (case map_of kw ''derived_handles'' of None \<Rightarrow> Some [] | Some v \<Rightarrow> mapping_of h v)"
    using mapping_of_keep [OF assms(3), of "[?cc, ?ca]" "''derived_handles''" "[?wc]" "[PyConfig ?c]"]
    by simp
  have m4: "mapping_of ?h' (keep h [?cc, ?ca, ?dh] ?wc) =
      (case map_of kw ''wrapper_classes'' of None \<Rightarrow> Some [] | Some v \<Rightarrow> mapping_of h v)"
    using mapping_of_keep [OF assms(3), of "[?cc, ?ca, ?dh]" "''wrapper_classes''" "[]" "[PyConfig ?c]"]
    by simp
  have "\<forall>name \<in> set Config_fields. \<exists>f.
              Config_getattr cls ?h' ?self name = Inr f \<and>
              mapping_of ?h' f =
                (case map_of kw name of None \<Rightarrow> Some [] | Some v \<Rightarrow> mapping_of h v)"
    unfolding Config_fields_def using m1 m2 m3 m4 by (simp add: g)
  with call show ?thesis by blast
qed

theorem from_parsed_omitted_subset_witness:
  "distinct (map fst [(''class_crosswalk'', PyRef 2)]) \<and>
   set (map fst [(''class_crosswalk'', PyRef 2)]) \<subseteq> set Config_fields \<and>
   is_mapping sol_store (PyRef 2) \<and>
   (\<exists>self h'.
      from_parsed_call sol_store [] [(''class_crosswalk'', PyRef 2)] = (Inr self, h') \<and>
      (\<forall>name \<in> set Config_fields. \<exists>f.
         Config_getattr loaded_class h' self name = Inr f \<and>
         mapping_of h' f =
           (case map_of [(''class_crosswalk'', PyRef 2)] name of
              None \<Rightarrow> Some []
            | Some v \<Rightarrow> mapping_of sol_store v)))"
proof -
  have 1: "distinct (map fst [(''class_crosswalk'', PyRef 2)])"
    by simp
  have 2: "set (map fst [(''class_crosswalk'', PyRef 2)]) \<subseteq> set Config_fields"
    by (simp add: Config_fields_def)
  have 3: "\<forall>v \<in> snd ` set [(''class_crosswalk'', PyRef 2)]. is_mapping sol_store v"
    by (simp add: is_mapping_def mapping_of_def deref_def sol_store_def loaded_store_def
        sol_mapping_def)
  have 4: "is_mapping sol_store (PyRef 2)"
    using 3 by simp
  from from_parsed_omitted_subset [OF 1 2 3] 1 2 4 show ?thesis
    by blast
qed

section \<open>The fixed mappings\<close>

text \<open>
  C2. Once the class is defined, any two instances found in any later store read the
  same \<^verbatim>\<open>ret_type_crosswalk\<close> and the same \<^verbatim>\<open>prop_type_crosswalk\<close>: the attributes
  of the class. The first is a mapping of exactly 5 entries with distinct keys that
  maps \<^verbatim>\<open>"size_t"\<close> to \<^verbatim>\<open>"nuint"\<close>; the second has exactly 2 entries and maps
  \<^verbatim>\<open>"byte*"\<close> to \<^verbatim>\<open>"string"\<close>. The later store \<open>h1 @ e\<close> is the store of the class
  definition grown by allocation: nothing in the module writes to the two
  dictionaries.
\<close>

theorem fixed_crosswalks_shared:
  assumes "define_Config h0 = (cls, h1)"
    and "deref (h1 @ e) a = Some (PyConfig c)"
    and "deref (h1 @ e) b = Some (PyConfig d)"
  shows "Config_getattr cls (h1 @ e) (PyRef a) ''ret_type_crosswalk'' =
           Config_getattr cls (h1 @ e) (PyRef b) ''ret_type_crosswalk'' \<and>
         Config_getattr cls (h1 @ e) (PyRef a) ''prop_type_crosswalk'' =
           Config_getattr cls (h1 @ e) (PyRef b) ''prop_type_crosswalk'' \<and>
         (\<exists>r items. Config_getattr cls (h1 @ e) (PyRef a) ''ret_type_crosswalk'' = Inr r \<and>
            mapping_of (h1 @ e) r = Some items \<and> length items = 5 \<and> distinct (map fst items) \<and>
            map_of items (PyStr ''size_t'') = Some (PyStr ''nuint'')) \<and>
         (\<exists>p items. Config_getattr cls (h1 @ e) (PyRef a) ''prop_type_crosswalk'' = Inr p \<and>
            mapping_of (h1 @ e) p = Some items \<and> length items = 2 \<and> distinct (map fst items) \<and>
            map_of items (PyStr ''byte*'') = Some (PyStr ''string''))"
proof -
  have r: "length ret_type_crosswalk_items = 5 \<and> distinct (map fst ret_type_crosswalk_items) \<and>
      map_of ret_type_crosswalk_items (PyStr ''size_t'') = Some (PyStr ''nuint'')"
    by (simp add: ret_type_crosswalk_items_def)
  have p: "length prop_type_crosswalk_items = 2 \<and> distinct (map fst prop_type_crosswalk_items) \<and>
      map_of prop_type_crosswalk_items (PyStr ''byte*'') = Some (PyStr ''string'')"
    by (simp add: prop_type_crosswalk_items_def)
  show ?thesis
    using r p define_Config_mappings [OF assms(1), of e]
    by (simp add: Config_getattr_instance [OF assms(2)] Config_getattr_instance [OF assms(3)])
qed

theorem fixed_crosswalks_shared_witness:
  "define_Config [] = (loaded_class, loaded_store) \<and>
   deref (loaded_store @ two_instances) 3 = Some (PyConfig empty_fields) \<and>
   deref (loaded_store @ two_instances) 4 = Some (PyConfig empty_fields) \<and>
   Config_getattr loaded_class (loaded_store @ two_instances) (PyRef 3) ''ret_type_crosswalk'' =
     Config_getattr loaded_class (loaded_store @ two_instances) (PyRef 4) ''ret_type_crosswalk'' \<and>
   Config_getattr loaded_class (loaded_store @ two_instances) (PyRef 3) ''prop_type_crosswalk'' =
     Config_getattr loaded_class (loaded_store @ two_instances) (PyRef 4) ''prop_type_crosswalk'' \<and>
   (\<exists>r items.
      Config_getattr loaded_class (loaded_store @ two_instances) (PyRef 3) ''ret_type_crosswalk''
        = Inr r \<and>
      mapping_of (loaded_store @ two_instances) r = Some items \<and>
      length items = 5 \<and> distinct (map fst items) \<and>
      map_of items (PyStr ''size_t'') = Some (PyStr ''nuint'')) \<and>
   (\<exists>p items.
      Config_getattr loaded_class (loaded_store @ two_instances) (PyRef 3) ''prop_type_crosswalk''
        = Inr p \<and>
      mapping_of (loaded_store @ two_instances) p = Some items \<and>
      length items = 2 \<and> distinct (map fst items) \<and>
      map_of items (PyStr ''byte*'') = Some (PyStr ''string''))"
proof -
  have 1: "define_Config [] = (loaded_class, loaded_store)"
    by (simp add: define_Config_def alloc_def loaded_class_def loaded_store_def)
  have 2: "deref (loaded_store @ two_instances) 3 = Some (PyConfig empty_fields)"
    by (simp add: deref_def loaded_store_def two_instances_def)
  have 3: "deref (loaded_store @ two_instances) 4 = Some (PyConfig empty_fields)"
    by (simp add: deref_def loaded_store_def two_instances_def)
  from fixed_crosswalks_shared [OF 1 2 3] 1 2 3 show ?thesis
    by blast
qed

section \<open>All four arguments supplied\<close>

text \<open>
  C3. A call of \<^verbatim>\<open>Config.from_parsed\<close> that passes a populated mapping for each of the
  four keyword arguments returns an instance whose four fields are the supplied
  mappings themselves: each field holds the very value that was passed, the only
  object added to the store is the instance (no mapping is copied), and every
  supplied mapping has the entries it had before the call.
\<close>

theorem from_parsed_all_supplied:
  assumes "distinct (map fst kw)"
    and "set (map fst kw) = set Config_fields"
    and "\<forall>v \<in> snd ` set kw. populated h v"
  shows "\<exists>self c. from_parsed_call h [] kw = (Inr self, h @ [PyConfig c]) \<and>
           (\<forall>name \<in> set Config_fields. \<exists>v.
              map_of kw name = Some v \<and>
              Config_getattr cls (h @ [PyConfig c]) self name = Inr v \<and>
              mapping_of (h @ [PyConfig c]) v = mapping_of h v)"
proof -
  let ?cc = "kwarg kw ''class_crosswalk'' PyNone"
  let ?ca = "kwarg kw ''class_accessors'' PyNone"
  let ?dh = "kwarg kw ''derived_handles'' PyNone"
  let ?wc = "kwarg kw ''wrapper_classes'' PyNone"
  let ?c = "\<lparr>class_crosswalk = ?cc, class_accessors = ?ca, derived_handles = ?dh, wrapper_classes = ?wc\<rparr>"
  have sup: "\<exists>v. map_of kw name = Some v \<and> kwarg kw name PyNone = v \<and> populated h v"
    if "name \<in> set Config_fields" for name
    using kwarg_supplied [of name kw PyNone] that assms(2,3) by auto
  have v: "\<forall>v \<in> snd ` set kw. valid h v"
    using assms(3) by (auto dest: populated_valid)
  have t: "truthy h ?cc = Inr True" "truthy h ?ca = Inr True"
    "truthy h ?dh = Inr True" "truthy h ?wc = Inr True"
    using sup [of "''class_crosswalk''"] sup [of "''class_accessors''"]
      sup [of "''derived_handles''"] sup [of "''wrapper_classes''"]
    by (auto simp: Config_fields_def dest: populated_truthy)
  have sub: "set (map fst kw) \<subseteq> set Config_fields"
    using assms(2) by simp
  have ts: "\<forall>v \<in> snd ` set kw. testable h v"
    using assms(3) by (auto dest: populated_testable)
  note vk = valid_kwarg [OF v] and tk = testable_kwarg [OF ts]
  have call: "from_parsed_call h [] kw = (Inr (PyRef (length h)), h @ [PyConfig ?c])"
    unfolding from_parsed_call_kw [OF assms(1) sub] from_parsed_eq [OF vk vk vk vk tk tk tk tk]
    by (simp add: fresh_def keep_def t)
  have d: "deref (h @ [PyConfig ?c]) (length h) = Some (PyConfig ?c)"
    by (simp add: deref_def)
  have m: "mapping_of (h @ [PyConfig ?c]) x = mapping_of h x" if "populated h x" for x
    using that mapping_of_append [of h x _ "[PyConfig ?c]"]
    by (auto simp: populated_def split: option.splits)
  have "\<exists>v. map_of kw name = Some v \<and>
              Config_getattr cls (h @ [PyConfig ?c]) (PyRef (length h)) name = Inr v \<and>
              mapping_of (h @ [PyConfig ?c]) v = mapping_of h v"
    if "name \<in> set Config_fields" for name
    using sup [OF that] that m
    by (auto simp: Config_getattr_instance [OF d] Config_fields_def)
  with call show ?thesis by blast
qed

theorem from_parsed_all_supplied_witness:
  "distinct (map fst four_keywords) \<and>
   set (map fst four_keywords) = set Config_fields \<and>
   populated four_mappings (PyRef 2) \<and> populated four_mappings (PyRef 3) \<and>
   populated four_mappings (PyRef 4) \<and> populated four_mappings (PyRef 5) \<and>
   (\<exists>self c.
      from_parsed_call four_mappings [] four_keywords = (Inr self, four_mappings @ [PyConfig c]) \<and>
      (\<forall>name \<in> set Config_fields. \<exists>v.
         map_of four_keywords name = Some v \<and>
         Config_getattr loaded_class (four_mappings @ [PyConfig c]) self name = Inr v \<and>
         mapping_of (four_mappings @ [PyConfig c]) v = mapping_of four_mappings v))"
proof -
  have 1: "distinct (map fst four_keywords)"
    by (simp add: four_keywords_def)
  have 2: "set (map fst four_keywords) = set Config_fields"
    by (auto simp: four_keywords_def Config_fields_def)
  have 3: "\<forall>v \<in> snd ` set four_keywords. populated four_mappings v"
    by (simp add: four_keywords_def four_mappings_def loaded_store_def populated_def
        mapping_of_def deref_def)
  have 4: "populated four_mappings (PyRef 2) \<and> populated four_mappings (PyRef 3) \<and>
      populated four_mappings (PyRef 4) \<and> populated four_mappings (PyRef 5)"
    using 3 by (simp add: four_keywords_def)
  from from_parsed_all_supplied [OF 1 2 3] 1 2 4 show ?thesis
    by blast
qed

section \<open>Immutability\<close>

text \<open>
  C4. An instance of \<^verbatim>\<open>Config\<close> is immutable. Assigning to an attribute of an
  instance, or deleting one, fails with \<^verbatim>\<open>FrozenInstanceError\<close> for every attribute
  name (the six names of the class among them) and leaves the store as it was; and
  the operations that do change the store (the factory, the constructor, the class
  definition) leave every existing instance as it was.
\<close>

theorem Config_instances_frozen:
  assumes "deref h a = Some (PyConfig c)"
  shows "Config_setattr h (PyRef a) name v = (Inl FrozenInstanceError, h) \<and>
         Config_delattr h (PyRef a) name = (Inl FrozenInstanceError, h) \<and>
         deref (snd (from_parsed_call h pos kw)) a = Some (PyConfig c) \<and>
         deref (snd (Config_new h pos kw)) a = Some (PyConfig c) \<and>
         deref (snd (define_Config h)) a = Some (PyConfig c)"
proof -
  have "Config_setattr h (PyRef a) name v = (Inl FrozenInstanceError, h)"
    by (simp add: Config_setattr_def is_Config_def assms)
  moreover have "Config_delattr h (PyRef a) name = (Inl FrozenInstanceError, h)"
    by (simp add: Config_delattr_def is_Config_def assms)
  moreover have "deref (snd (from_parsed_call h pos kw)) a = Some (PyConfig c)"
    using assms from_parsed_call_ext by (rule deref_ext)
  moreover have "deref (snd (Config_new h pos kw)) a = Some (PyConfig c)"
    using assms Config_new_ext by (rule deref_ext)
  moreover have "deref (snd (define_Config h)) a = Some (PyConfig c)"
    using assms define_Config_ext by (rule deref_ext)
  ultimately show ?thesis by simp
qed

theorem Config_instances_frozen_witness:
  "deref after_first 6 = Some (PyConfig first_fields) \<and>
   Config_setattr after_first (PyRef 6) ''class_crosswalk'' (PyRef 3)
     = (Inl FrozenInstanceError, after_first) \<and>
   Config_delattr after_first (PyRef 6) ''class_crosswalk''
     = (Inl FrozenInstanceError, after_first) \<and>
   deref (snd (from_parsed_call after_first [] [(''class_crosswalk'', PyRef 2)])) 6
     = Some (PyConfig first_fields) \<and>
   deref (snd (Config_new after_first [PyRef 2, PyRef 3, PyRef 4, PyRef 5] [])) 6
     = Some (PyConfig first_fields) \<and>
   deref (snd (define_Config after_first)) 6 = Some (PyConfig first_fields)"
proof -
  have 1: "deref after_first 6 = Some (PyConfig first_fields)"
    by (simp add: deref_def after_first_def sol_store_def loaded_store_def)
  from Config_instances_frozen [OF 1] 1 show ?thesis
    by blast
qed

section \<open>No validation, and the one error that propagates\<close>

text \<open>
  \<^verbatim>\<open>Config.from_parsed\<close> can end with an error. The expression \<^verbatim>\<open>x or {}\<close> runs the
  truth test of its argument, and the call below, which passes by keyword an object
  whose truth test raises \<^verbatim>\<open>ValueError\<close> as \<^verbatim>\<open>class_crosswalk\<close>, ends with that error
  and creates nothing.
\<close>

theorem from_parsed_raises_counterexample:
  "distinct (map fst [(''class_crosswalk'', PyRef 2)]) \<and>
   set (map fst [(''class_crosswalk'', PyRef 2)]) \<subseteq> set Config_fields \<and>
   deref raising_store 2 = Some (PyOther (Inl ValueError)) \<and>
   from_parsed_call raising_store [] [(''class_crosswalk'', PyRef 2)]
     = (Inl ValueError, raising_store)"
  by (simp add: Config_fields_def raising_store_def loaded_store_def deref_def
      from_parsed_call_def kwarg_def from_parsed_def or_empty_dict_def truthy_def)

text \<open>
  C5. \<^verbatim>\<open>Config.from_parsed\<close> validates nothing and rejects no missing input. When
  the truth test of every argument returns, whatever the arguments are (\<^verbatim>\<open>None\<close>,
  scalars, lists, dictionaries of any content, instances, objects of other classes),
  the call returns a new
  instance in which every argument that is true is stored as it was given and every
  argument that is missing or false is replaced by a new empty mapping. The call is
  not free of errors for every argument, as the theorem above shows, but the only
  error a call by keyword can end with is an error raised by the truth test of one
  of its arguments.
\<close>

theorem from_parsed_no_validation:
  assumes "distinct (map fst kw)"
    and "set (map fst kw) \<subseteq> set Config_fields"
    and "\<forall>v \<in> snd ` set kw. valid h v"
  shows "((\<forall>v \<in> snd ` set kw. testable h v) \<longrightarrow>
           (\<exists>a c h'. from_parsed_call h [] kw = (Inr (PyRef a), h') \<and>
              deref h' a = Some (PyConfig c) \<and>
              (\<forall>name \<in> set Config_fields. \<exists>f.
                 Config_getattr cls h' (PyRef a) name = Inr f \<and>
                 (if truthy h (kwarg kw name PyNone) = Inr True then f = kwarg kw name PyNone
                  else \<not> valid h f \<and> mapping_of h' f = Some [])))) \<and>
         (\<forall>e h'. from_parsed_call h [] kw = (Inl e, h') \<longrightarrow>
            (\<exists>v \<in> snd ` set kw. truthy h v = Inl e))"
proof -
  let ?cc = "kwarg kw ''class_crosswalk'' PyNone"
  let ?ca = "kwarg kw ''class_accessors'' PyNone"
  let ?dh = "kwarg kw ''derived_handles'' PyNone"
  let ?wc = "kwarg kw ''wrapper_classes'' PyNone"
  have 1: "\<exists>a c h'. from_parsed_call h [] kw = (Inr (PyRef a), h') \<and>
      deref h' a = Some (PyConfig c) \<and>
      (\<forall>name \<in> set Config_fields. \<exists>f.
         Config_getattr cls h' (PyRef a) name = Inr f \<and>
         (if truthy h (kwarg kw name PyNone) = Inr True then f = kwarg kw name PyNone
          else \<not> valid h f \<and> mapping_of h' f = Some []))"
    if t: "\<forall>v \<in> snd ` set kw. testable h v"
  proof -
    define e where "e = fresh h [?cc, ?ca, ?dh, ?wc]"
    define c where "c = \<lparr>class_crosswalk = keep h [] ?cc, class_accessors = keep h [?cc] ?ca,
      derived_handles = keep h [?cc, ?ca] ?dh, wrapper_classes = keep h [?cc, ?ca, ?dh] ?wc\<rparr>"
    define h' where "h' = h @ e @ [PyConfig c]"
    note vk = valid_kwarg [OF assms(3)] and tk = testable_kwarg [OF t]
    have call: "from_parsed_call h [] kw = (Inr (PyRef (length h + length e)), h')"
      unfolding h'_def e_def c_def
      by (simp only: from_parsed_call_kw [OF assms(1,2)] from_parsed_eq [OF vk vk vk vk tk tk tk tk])
    have d: "deref h' (length h + length e) = Some (PyConfig c)"
      unfolding h'_def by (rule deref_instance)
    have f1: "if truthy h ?cc = Inr True then class_crosswalk c = ?cc
        else \<not> valid h (class_crosswalk c) \<and> mapping_of h' (class_crosswalk c) = Some []"
      by (rule field_outcome [OF tk, where before = "[]" and after = "[?ca, ?dh, ?wc]"
            and ext = "[PyConfig c]"])
        (simp_all add: h'_def e_def c_def)
    have f2: "if truthy h ?ca = Inr True then class_accessors c = ?ca
        else \<not> valid h (class_accessors c) \<and> mapping_of h' (class_accessors c) = Some []"
      by (rule field_outcome [OF tk, where before = "[?cc]" and after = "[?dh, ?wc]"
            and ext = "[PyConfig c]"])
        (simp_all add: h'_def e_def c_def)
    have f3: "if truthy h ?dh = Inr True then derived_handles c = ?dh
        else \<not> valid h (derived_handles c) \<and> mapping_of h' (derived_handles c) = Some []"
      by (rule field_outcome [OF tk, where before = "[?cc, ?ca]" and after = "[?wc]"
            and ext = "[PyConfig c]"])
        (simp_all add: h'_def e_def c_def)
    have f4: "if truthy h ?wc = Inr True then wrapper_classes c = ?wc
        else \<not> valid h (wrapper_classes c) \<and> mapping_of h' (wrapper_classes c) = Some []"
      by (rule field_outcome [OF tk, where before = "[?cc, ?ca, ?dh]" and after = "[]"
            and ext = "[PyConfig c]"])
        (simp_all add: h'_def e_def c_def)
    have "\<forall>name \<in> set Config_fields. \<exists>f.
        Config_getattr cls h' (PyRef (length h + length e)) name = Inr f \<and>
        (if truthy h (kwarg kw name PyNone) = Inr True then f = kwarg kw name PyNone
         else \<not> valid h f \<and> mapping_of h' f = Some [])"
      unfolding Config_fields_def using f1 f2 f3 f4
      by (simp add: Config_getattr_instance [OF d])
    with call d show ?thesis by blast
  qed
  have 2: "\<exists>v \<in> snd ` set kw. truthy h v = Inl e"
    if "from_parsed_call h [] kw = (Inl e, h')" for e h'
  proof -
    from that have "from_parsed h ?cc ?ca ?dh ?wc = (Inl e, h')"
      by (simp only: from_parsed_call_kw [OF assms(1,2)])
    from from_parsed_Inl [OF this] obtain name where "truthy h (kwarg kw name PyNone) = Inl e"
      by auto
    then show ?thesis by (rule truthy_kwarg_Inl)
  qed
  from 1 2 show ?thesis by blast
qed

theorem from_parsed_no_validation_witness:
  "distinct (map fst malformed_keywords) \<and>
   set (map fst malformed_keywords) \<subseteq> set Config_fields \<and>
   valid list_store (PyRef 2) \<and> valid list_store (PyInt 0) \<and>
   valid list_store (PyRef 3) \<and> valid list_store (PyStr ''nonsense'') \<and>
   testable list_store (PyRef 2) \<and> testable list_store (PyInt 0) \<and>
   testable list_store (PyRef 3) \<and> testable list_store (PyStr ''nonsense'') \<and>
   (\<exists>a c h'. from_parsed_call list_store [] malformed_keywords = (Inr (PyRef a), h') \<and>
      deref h' a = Some (PyConfig c) \<and>
      (\<forall>name \<in> set Config_fields. \<exists>f.
         Config_getattr loaded_class h' (PyRef a) name = Inr f \<and>
         (if truthy list_store (kwarg malformed_keywords name PyNone) = Inr True
          then f = kwarg malformed_keywords name PyNone
          else \<not> valid list_store f \<and> mapping_of h' f = Some []))) \<and>
   distinct (map fst [(''class_crosswalk'', PyRef 2)]) \<and>
   set (map fst [(''class_crosswalk'', PyRef 2)]) \<subseteq> set Config_fields \<and>
   valid raising_store (PyRef 2) \<and>
   from_parsed_call raising_store [] [(''class_crosswalk'', PyRef 2)]
     = (Inl ValueError, raising_store) \<and>
   truthy raising_store (PyRef 2) = Inl ValueError"
proof -
  have 1: "distinct (map fst malformed_keywords)"
    by (simp add: malformed_keywords_def)
  have 2: "set (map fst malformed_keywords) \<subseteq> set Config_fields"
    by (simp add: malformed_keywords_def Config_fields_def)
  have 3: "\<forall>v \<in> snd ` set malformed_keywords. valid list_store v"
    by (simp add: malformed_keywords_def valid_def list_store_def loaded_store_def)
  have 4: "\<forall>v \<in> snd ` set malformed_keywords. testable list_store v"
    by (simp add: malformed_keywords_def testable_def truthy_def deref_def list_store_def
        loaded_store_def)
  have 5: "valid list_store (PyRef 2) \<and> valid list_store (PyInt 0) \<and>
      valid list_store (PyRef 3) \<and> valid list_store (PyStr ''nonsense'')"
    using 3 by (simp add: malformed_keywords_def)
  have 6: "testable list_store (PyRef 2) \<and> testable list_store (PyInt 0) \<and>
      testable list_store (PyRef 3) \<and> testable list_store (PyStr ''nonsense'')"
    using 4 by (simp add: malformed_keywords_def)
  have 7: "distinct (map fst [(''class_crosswalk'', PyRef 2)])"
    by simp
  have 8: "set (map fst [(''class_crosswalk'', PyRef 2)]) \<subseteq> set Config_fields"
    by (simp add: Config_fields_def)
  have 9: "\<forall>v \<in> snd ` set [(''class_crosswalk'', PyRef 2)]. valid raising_store v"
    by (simp add: valid_def raising_store_def loaded_store_def)
  have 10: "valid raising_store (PyRef 2)"
    using 9 by simp
  have 11: "from_parsed_call raising_store [] [(''class_crosswalk'', PyRef 2)]
      = (Inl ValueError, raising_store)"
    by code_simp
  from from_parsed_no_validation [OF 1 2 3, of loaded_class] 4
  have a: "\<exists>a c h'. from_parsed_call list_store [] malformed_keywords = (Inr (PyRef a), h') \<and>
      deref h' a = Some (PyConfig c) \<and>
      (\<forall>name \<in> set Config_fields. \<exists>f.
         Config_getattr loaded_class h' (PyRef a) name = Inr f \<and>
         (if truthy list_store (kwarg malformed_keywords name PyNone) = Inr True
          then f = kwarg malformed_keywords name PyNone
          else \<not> valid list_store f \<and> mapping_of h' f = Some []))"
    by blast
  from from_parsed_no_validation [OF 7 8 9] 11
  have b: "truthy raising_store (PyRef 2) = Inl ValueError"
    by fastforce
  from 1 2 5 6 a 7 8 10 11 b show ?thesis
    by blast
qed

section \<open>Purity and determinism\<close>

text \<open>
  C6. \<^verbatim>\<open>Config.from_parsed\<close> has no side effect and is deterministic. A call only
  adds objects to the store: every object that existed before it (the argument
  mappings, the dictionaries of the class, earlier instances) is unchanged. Two
  calls, the second made at any later time with arguments equal (\<^verbatim>\<open>==\<close>) to those
  of the first, return instances that are equal.
\<close>

theorem from_parsed_pure_deterministic:
  assumes "distinct (map fst kw1)" and "set (map fst kw1) \<subseteq> set Config_fields"
    and "distinct (map fst kw2)" and "set (map fst kw2) \<subseteq> set Config_fields"
    and "\<forall>v \<in> snd ` set kw1. valid h v"
    and "from_parsed_call h [] kw1 = (Inr s1, h1)"
    and "from_parsed_call (h1 @ e) [] kw2 = (Inr s2, h2)"
    and "\<forall>name \<in> set Config_fields.
           py_eq (Suc n) (h1 @ e) (kwarg kw1 name PyNone) (kwarg kw2 name PyNone) = Some True"
  shows "(\<exists>new. h1 = h @ new) \<and> (\<exists>new. h2 = h1 @ e @ new) \<and>
         py_eq (Suc (Suc n)) h2 s1 s2 = Some True"
proof -
  from from_parsed_call_grows [OF assms(6)] obtain new1 where h1: "h1 = h @ new1" ..
  from from_parsed_call_grows [OF assms(7)] obtain new2 where h2: "h2 = (h1 @ e) @ new2" ..
  have v: "valid h (kwarg kw1 name PyNone)" for name
    by (rule valid_kwarg [OF assms(5)])
  have vH: "valid (h1 @ e) (kwarg kw1 name PyNone)" for name
    using valid_append [OF v [of name], of "new1 @ e"] by (simp add: h1)
  have sim: "similar n (h1 @ e) (kwarg kw1 name PyNone) (kwarg kw2 name PyNone)"
    if "name \<in> set Config_fields" for name
    using vH assms(8) that by (blast intro: similar_py_eq)
  have "py_eq (Suc (Suc n)) h2 s1 s2 = Some True"
    using v v v v
      assms(6) [unfolded from_parsed_call_kw [OF assms(1,2)]]
      assms(7) [unfolded from_parsed_call_kw [OF assms(3,4)]]
  proof (rule from_parsed_twice)
  qed (simp_all add: sim Config_fields_def)
  with h1 h2 show ?thesis by simp
qed

theorem from_parsed_pure_deterministic_witness:
  "distinct (map fst [(''class_crosswalk'', PyRef 2)]) \<and>
   set (map fst [(''class_crosswalk'', PyRef 2)]) \<subseteq> set Config_fields \<and>
   distinct (map fst [(''class_crosswalk'', PyRef 7)]) \<and>
   set (map fst [(''class_crosswalk'', PyRef 7)]) \<subseteq> set Config_fields \<and>
   valid sol_store (PyRef 2) \<and>
   from_parsed_call sol_store [] [(''class_crosswalk'', PyRef 2)] = (Inr (PyRef 6), after_first) \<and>
   from_parsed_call (after_first @ [sol_mapping]) [] [(''class_crosswalk'', PyRef 7)]
     = (Inr (PyRef 11), after_second) \<and>
   py_eq (Suc (Suc 0)) (after_first @ [sol_mapping]) (PyRef 2) (PyRef 7) = Some True \<and>
   (\<exists>new. after_first = sol_store @ new) \<and>
   (\<exists>new. after_second = after_first @ [sol_mapping] @ new) \<and>
   py_eq (Suc (Suc (Suc 0))) after_second (PyRef 6) (PyRef 11) = Some True"
proof -
  have 1: "distinct (map fst [(''class_crosswalk'', PyRef 2)])"
    and 3: "distinct (map fst [(''class_crosswalk'', PyRef 7)])"
    by simp_all
  have 2: "set (map fst [(''class_crosswalk'', PyRef 2)]) \<subseteq> set Config_fields"
    and 4: "set (map fst [(''class_crosswalk'', PyRef 7)]) \<subseteq> set Config_fields"
    by (simp_all add: Config_fields_def)
  have 5: "\<forall>v \<in> snd ` set [(''class_crosswalk'', PyRef 2)]. valid sol_store v"
    by (simp add: valid_def sol_store_def loaded_store_def)
  have 6: "from_parsed_call sol_store [] [(''class_crosswalk'', PyRef 2)]
      = (Inr (PyRef 6), after_first)"
    by code_simp
  have 7: "from_parsed_call (after_first @ [sol_mapping]) [] [(''class_crosswalk'', PyRef 7)]
      = (Inr (PyRef 11), after_second)"
    by code_simp
  have 8: "\<forall>name \<in> set Config_fields.
      py_eq (Suc (Suc 0)) (after_first @ [sol_mapping])
        (kwarg [(''class_crosswalk'', PyRef 2)] name PyNone)
        (kwarg [(''class_crosswalk'', PyRef 7)] name PyNone) = Some True"
    by (simp add: Config_fields_def kwarg_def deref_def after_first_def sol_store_def
        loaded_store_def sol_mapping_def)
  have 9: "valid sol_store (PyRef 2)"
    using 5 by simp
  have 10: "py_eq (Suc (Suc 0)) (after_first @ [sol_mapping]) (PyRef 2) (PyRef 7) = Some True"
    using 8 by (simp add: Config_fields_def kwarg_def)
  from from_parsed_pure_deterministic [OF 1 2 3 4 5 6 7 8] 1 2 3 4 9 6 7 10 show ?thesis
    by blast
qed

section \<open>No arguments\<close>

text \<open>
  C7. A call of \<^verbatim>\<open>Config.from_parsed\<close> without arguments, at any time after the class
  is defined, returns an instance whose four variable fields are empty mappings and
  whose fixed fields are the built-in mappings of 5 and of 2 entries.
\<close>

theorem from_parsed_no_arguments:
  assumes "define_Config h0 = (cls, h1)"
  shows "\<exists>self h'. from_parsed_call (h1 @ e) [] [] = (Inr self, h') \<and>
           (\<forall>name \<in> set Config_fields. \<exists>f.
              Config_getattr cls h' self name = Inr f \<and> mapping_of h' f = Some []) \<and>
           (\<exists>r. Config_getattr cls h' self ''ret_type_crosswalk'' = Inr r \<and>
              mapping_of h' r = Some ret_type_crosswalk_items) \<and>
           (\<exists>p. Config_getattr cls h' self ''prop_type_crosswalk'' = Inr p \<and>
              mapping_of h' p = Some prop_type_crosswalk_items) \<and>
           length ret_type_crosswalk_items = 5 \<and> length prop_type_crosswalk_items = 2"
proof -
  define h where "h = h1 @ e"
  define c where "c = \<lparr>class_crosswalk = PyRef (length h), class_accessors = PyRef (length h + 1),
             derived_handles = PyRef (length h + 2), wrapper_classes = PyRef (length h + 3)\<rparr>"
  define n where "n = [PyDict [], PyDict [], PyDict [], PyDict [], PyConfig c]"
  define h' where "h' = h1 @ e @ n"
  define self where "self = length h + 4"
  have call: "from_parsed_call (h1 @ e) [] [] = (Inr (PyRef self), h')"
    using from_parsed_call_nil [of h] by (simp add: h_def c_def n_def h'_def self_def)
  have d: "deref h' self = Some (PyConfig c)"
    by (simp add: h'_def n_def self_def h_def deref_def nth_append)
  have m: "mapping_of h' (class_crosswalk c) = Some []"
    "mapping_of h' (class_accessors c) = Some []"
    "mapping_of h' (derived_handles c) = Some []"
    "mapping_of h' (wrapper_classes c) = Some []"
    by (simp_all add: c_def h'_def n_def h_def mapping_of_def deref_def nth_append)
  have r: "mapping_of h' (ret_type_crosswalk cls) = Some ret_type_crosswalk_items"
    unfolding h'_def by (rule define_Config_mappings [OF assms])
  have p: "mapping_of h' (prop_type_crosswalk cls) = Some prop_type_crosswalk_items"
    unfolding h'_def by (rule define_Config_mappings [OF assms])
  have l: "length ret_type_crosswalk_items = 5 \<and> length prop_type_crosswalk_items = 2"
    by (simp add: ret_type_crosswalk_items_def prop_type_crosswalk_items_def)
  have "Config_getattr cls h' (PyRef self) ''ret_type_crosswalk'' = Inr (ret_type_crosswalk cls)"
    "Config_getattr cls h' (PyRef self) ''prop_type_crosswalk'' = Inr (prop_type_crosswalk cls)"
    by (simp_all add: Config_getattr_instance [OF d])
  with call all_fields_empty [OF d m, of cls] r p l show ?thesis by blast
qed

theorem from_parsed_no_arguments_witness:
  "define_Config [] = (loaded_class, loaded_store) \<and>
   (\<exists>self h'. from_parsed_call (loaded_store @ [sol_mapping]) [] [] = (Inr self, h') \<and>
      (\<forall>name \<in> set Config_fields. \<exists>f.
         Config_getattr loaded_class h' self name = Inr f \<and> mapping_of h' f = Some []) \<and>
      (\<exists>r. Config_getattr loaded_class h' self ''ret_type_crosswalk'' = Inr r \<and>
         mapping_of h' r = Some ret_type_crosswalk_items) \<and>
      (\<exists>p. Config_getattr loaded_class h' self ''prop_type_crosswalk'' = Inr p \<and>
         mapping_of h' p = Some prop_type_crosswalk_items) \<and>
      length ret_type_crosswalk_items = 5 \<and> length prop_type_crosswalk_items = 2)"
proof -
  have 1: "define_Config [] = (loaded_class, loaded_store)"
    by (simp add: define_Config_def alloc_def loaded_class_def loaded_store_def)
  from from_parsed_no_arguments [OF 1, of "[sol_mapping]"] 1 show ?thesis
    by blast
qed

section \<open>An empty mapping and an omitted argument\<close>

text \<open>
  C8. For each of the four arguments, passing an empty mapping gives what omitting
  the argument gives. In one and the same store the two calls have the same result
  and leave the same store; and when the call with the empty mapping is made after
  the call without the argument, the two instances are equal (\<^verbatim>\<open>==\<close>).
\<close>

theorem empty_mapping_same_as_omitted:
  assumes "name \<in> set Config_fields" and "name \<notin> fst ` set kw"
    and "distinct (map fst kw)" and "set (map fst kw) \<subseteq> set Config_fields"
    and "\<forall>x \<in> snd ` set kw. valid h x"
    and "mapping_of h v = Some []"
  shows "from_parsed_call h [] ((name, v) # kw) = from_parsed_call h [] kw \<and>
         (from_parsed_call h [] kw = (Inr s1, h1) \<and> mapping_of (h1 @ e) v' = Some [] \<and>
          from_parsed_call (h1 @ e) [] ((name, v') # kw) = (Inr s2, h2) \<longrightarrow>
            py_eq (Suc (Suc n)) h2 s1 s2 = Some True)"
proof -
  have d: "distinct (map fst ((name, w) # kw))" for w :: py_value
    using assms(2,3) by simp
  have s: "set (map fst ((name, w) # kw)) \<subseteq> set Config_fields" for w :: py_value
    using assms(1,4) by simp
  have none: "kwarg kw name PyNone = PyNone"
    using assms(2) by (rule kwarg_omitted)
  have vk: "valid h (kwarg kw f PyNone)" for f
    by (rule valid_kwarg [OF assms(5)])
  have fN: "truthy H PyNone = Inr False" for H
    by (rule truthy_None)
  have vN: "valid H PyNone" for H
    by (simp add: valid_def)
  have same: "same_or_falsy h (kwarg ((name, v) # kw) f PyNone) (kwarg kw f PyNone)" for f
    using mapping_of_valid [OF assms(6)] mapping_of_truthy [OF assms(6)] fN [of h] vN [of h]
    by (simp add: kwarg_Cons none same_or_falsy_def)
  have 1: "from_parsed_call h [] ((name, v) # kw) = from_parsed_call h [] kw"
    unfolding from_parsed_call_kw [OF d s] from_parsed_call_kw [OF assms(3,4)]
    by (rule from_parsed_same_or_falsy [OF same same same same])
  have 2: "py_eq (Suc (Suc n)) h2 s1 s2 = Some True"
    if c1: "from_parsed_call h [] kw = (Inr s1, h1)"
      and m: "mapping_of (h1 @ e) v' = Some []"
      and c2: "from_parsed_call (h1 @ e) [] ((name, v') # kw) = (Inr s2, h2)"
  proof -
    from from_parsed_call_grows [OF c1] obtain new1 where h1: "h1 = h @ new1" ..
    have vH: "valid (h1 @ e) (kwarg kw f PyNone)" for f
      using valid_append [OF vk [of f], of "new1 @ e"] by (simp add: h1)
    have sim: "similar n (h1 @ e) (kwarg kw f PyNone) (kwarg ((name, v') # kw) f PyNone)" for f
    proof (cases "f = name")
      case True
      have "similar n (h1 @ e) PyNone v'"
        using mapping_of_valid [OF m] fN mapping_of_truthy [OF m]
        by (intro similar_falsy) simp_all
      with True show ?thesis by (simp add: kwarg_Cons none)
    next
      case False
      with similar_refl [OF vH] show ?thesis by (simp add: kwarg_Cons)
    qed
    show ?thesis
      using vk vk vk vk
        c1 [unfolded from_parsed_call_kw [OF assms(3,4)]]
        c2 [unfolded from_parsed_call_kw [OF d s]]
        sim sim sim sim
      by (rule from_parsed_twice)
  qed
  from 1 2 show ?thesis by blast
qed

theorem empty_mapping_same_as_omitted_witness:
  "''class_accessors'' \<in> set Config_fields \<and>
   ''class_accessors'' \<notin> fst ` set [(''class_crosswalk'', PyRef 2)] \<and>
   distinct (map fst [(''class_crosswalk'', PyRef 2)]) \<and>
   set (map fst [(''class_crosswalk'', PyRef 2)]) \<subseteq> set Config_fields \<and>
   valid with_empty (PyRef 2) \<and>
   mapping_of with_empty (PyRef 3) = Some [] \<and>
   from_parsed_call with_empty [] [(''class_accessors'', PyRef 3), (''class_crosswalk'', PyRef 2)] =
     from_parsed_call with_empty [] [(''class_crosswalk'', PyRef 2)] \<and>
   from_parsed_call with_empty [] [(''class_crosswalk'', PyRef 2)] = (Inr (PyRef 7), after_omitted) \<and>
   mapping_of (after_omitted @ []) (PyRef 3) = Some [] \<and>
   from_parsed_call (after_omitted @ []) []
       [(''class_accessors'', PyRef 3), (''class_crosswalk'', PyRef 2)]
     = (Inr (PyRef 11), after_explicit) \<and>
   py_eq (Suc (Suc 0)) after_explicit (PyRef 7) (PyRef 11) = Some True"
proof -
  have 1: "''class_accessors'' \<in> set Config_fields"
    by (simp add: Config_fields_def)
  have 2: "''class_accessors'' \<notin> fst ` set [(''class_crosswalk'', PyRef 2)]"
    by simp
  have 3: "distinct (map fst [(''class_crosswalk'', PyRef 2)])"
    by simp
  have 4: "set (map fst [(''class_crosswalk'', PyRef 2)]) \<subseteq> set Config_fields"
    by (simp add: Config_fields_def)
  have 5: "\<forall>x \<in> snd ` set [(''class_crosswalk'', PyRef 2)]. valid with_empty x"
    by (simp add: valid_def with_empty_def sol_store_def loaded_store_def)
  have 6: "mapping_of with_empty (PyRef 3) = Some []"
    by (simp add: mapping_of_def deref_def with_empty_def sol_store_def loaded_store_def)
  have 7: "from_parsed_call with_empty [] [(''class_crosswalk'', PyRef 2)]
      = (Inr (PyRef 7), after_omitted)"
    by code_simp
  have 8: "mapping_of (after_omitted @ []) (PyRef 3) = Some []"
    by (simp add: mapping_of_def deref_def after_omitted_def with_empty_def sol_store_def
        loaded_store_def)
  have 9: "from_parsed_call (after_omitted @ []) []
        [(''class_accessors'', PyRef 3), (''class_crosswalk'', PyRef 2)]
      = (Inr (PyRef 11), after_explicit)"
    by code_simp
  have 10: "valid with_empty (PyRef 2)"
    using 5 by simp
  from empty_mapping_same_as_omitted [OF 1 2 3 4 5 6, of "PyRef 7" after_omitted "[]" "PyRef 3"
      "PyRef 11" after_explicit 0]
    1 2 3 4 10 6 7 8 9
  show ?thesis
    by blast
qed

section \<open>The parameters of the constructor\<close>

text \<open>
  C9. \<^verbatim>\<open>ret_type_crosswalk\<close> and \<^verbatim>\<open>prop_type_crosswalk\<close> are not parameters of the
  generated constructor. A call of the class, or of the factory, that names either
  of them as a keyword fails with \<^verbatim>\<open>TypeError\<close>, and so does a call of the class
  with more than four positional arguments. A call of the class that succeeds has
  exactly four arguments, named by the four fields, and the instance it returns
  reads the two fixed mappings from the class, whatever the arguments were. Four
  positional arguments are accepted and stored as the four fields.
\<close>

theorem fixed_mappings_not_parameters:
  "(k \<in> fst ` set kw \<and> (k = ''ret_type_crosswalk'' \<or> k = ''prop_type_crosswalk'') \<longrightarrow>
      Config_new h pos kw = (Inl TypeError, h) \<and> from_parsed_call h pos kw = (Inl TypeError, h)) \<and>
   (4 < length pos \<longrightarrow> Config_new h pos kw = (Inl TypeError, h)) \<and>
   (Config_new h pos kw = (Inr self, h') \<longrightarrow>
      length pos + length kw = 4 \<and> set (map fst kw) \<subseteq> set Config_fields \<and>
      Config_getattr cls h' self ''ret_type_crosswalk'' = Inr (ret_type_crosswalk cls) \<and>
      Config_getattr cls h' self ''prop_type_crosswalk'' = Inr (prop_type_crosswalk cls)) \<and>
   Config_new h [a, b, c, d] [] =
     (Inr (PyRef (length h)),
      h @ [PyConfig \<lparr>class_crosswalk = a, class_accessors = b,
                     derived_handles = c, wrapper_classes = d\<rparr>])"
proof -
  have 1: "Config_new h pos kw = (Inl TypeError, h) \<and> from_parsed_call h pos kw = (Inl TypeError, h)"
    if "k \<in> fst ` set kw" and "k = ''ret_type_crosswalk'' \<or> k = ''prop_type_crosswalk''"
  proof -
    from that(2) have "k \<notin> set Config_fields" by (auto simp: Config_fields_def)
    with that(1) show ?thesis
      by (simp add: Config_new_def bind_init_unknown_keyword from_parsed_call_unknown_keyword)
  qed
  have 2: "Config_new h pos kw = (Inl TypeError, h)" if "4 < length pos"
    using that by (simp add: Config_new_def bind_init_def Config_fields_def)
  have 3: "length pos + length kw = 4 \<and> set (map fst kw) \<subseteq> set Config_fields \<and>
      Config_getattr cls h' self ''ret_type_crosswalk'' = Inr (ret_type_crosswalk cls) \<and>
      Config_getattr cls h' self ''prop_type_crosswalk'' = Inr (prop_type_crosswalk cls)"
    if "Config_new h pos kw = (Inr self, h')"
  proof -
    from Config_new_Inr [OF that] obtain c where b: "bind_init pos kw = Inr c"
      and s: "self = PyRef (length h)" and h': "h' = h @ [PyConfig c]"
      by blast
    have d: "deref h' (length h) = Some (PyConfig c)"
      by (simp add: h' deref_def)
    have "set (map fst kw) \<subseteq> set Config_fields"
      unfolding bind_init_Inr(3) [OF b] by (rule set_drop_subset)
    with bind_init_count [OF b] show ?thesis
      by (simp add: s Config_getattr_instance [OF d])
  qed
  from 1 2 3 Config_new_four [of h a b c d] show ?thesis by blast
qed

theorem fixed_mappings_not_parameters_witness:
  "''ret_type_crosswalk'' \<in> fst ` set ((''ret_type_crosswalk'', PyRef 2) # four_keywords) \<and>
   Config_new four_mappings [] ((''ret_type_crosswalk'', PyRef 2) # four_keywords)
     = (Inl TypeError, four_mappings) \<and>
   from_parsed_call four_mappings [] ((''ret_type_crosswalk'', PyRef 2) # four_keywords)
     = (Inl TypeError, four_mappings) \<and>
   4 < length [PyRef 2, PyRef 3, PyRef 4, PyRef 5, PyRef 6] \<and>
   Config_new four_mappings [PyRef 2, PyRef 3, PyRef 4, PyRef 5, PyRef 6] []
     = (Inl TypeError, four_mappings) \<and>
   Config_new four_mappings [PyRef 2, PyRef 3]
       [(''wrapper_classes'', PyRef 5), (''derived_handles'', PyRef 4)]
     = (Inr (PyRef 7), four_mappings @ [PyConfig first_fields]) \<and>
   length [PyRef 2, PyRef 3]
     + length [(''wrapper_classes'', PyRef 5), (''derived_handles'', PyRef 4)] = 4 \<and>
   set (map fst [(''wrapper_classes'', PyRef 5), (''derived_handles'', PyRef 4)])
     \<subseteq> set Config_fields \<and>
   Config_getattr loaded_class (four_mappings @ [PyConfig first_fields]) (PyRef 7)
       ''ret_type_crosswalk''
     = Inr (ret_type_crosswalk loaded_class) \<and>
   Config_getattr loaded_class (four_mappings @ [PyConfig first_fields]) (PyRef 7)
       ''prop_type_crosswalk''
     = Inr (prop_type_crosswalk loaded_class) \<and>
   mapping_of (four_mappings @ [PyConfig first_fields]) (ret_type_crosswalk loaded_class)
     = Some ret_type_crosswalk_items \<and>
   mapping_of (four_mappings @ [PyConfig first_fields]) (prop_type_crosswalk loaded_class)
     = Some prop_type_crosswalk_items \<and>
   Config_new four_mappings [PyRef 2, PyRef 3, PyRef 4, PyRef 5] []
     = (Inr (PyRef (length four_mappings)),
        four_mappings @ [PyConfig \<lparr>class_crosswalk = PyRef 2, class_accessors = PyRef 3,
                                   derived_handles = PyRef 4, wrapper_classes = PyRef 5\<rparr>])"
proof -
  have 1: "''ret_type_crosswalk'' \<in> fst ` set ((''ret_type_crosswalk'', PyRef 2) # four_keywords)"
    by simp
  have 2: "4 < length [PyRef 2, PyRef 3, PyRef 4, PyRef 5, PyRef 6]"
    by simp
  have 3: "Config_new four_mappings [PyRef 2, PyRef 3]
        [(''wrapper_classes'', PyRef 5), (''derived_handles'', PyRef 4)]
      = (Inr (PyRef 7), four_mappings @ [PyConfig first_fields])"
    by code_simp
  have 4: "mapping_of (four_mappings @ [PyConfig first_fields]) (ret_type_crosswalk loaded_class)
        = Some ret_type_crosswalk_items \<and>
      mapping_of (four_mappings @ [PyConfig first_fields]) (prop_type_crosswalk loaded_class)
        = Some prop_type_crosswalk_items"
    by (simp add: mapping_of_def deref_def four_mappings_def loaded_store_def loaded_class_def)
  from fixed_mappings_not_parameters
      [of "''ret_type_crosswalk''" "(''ret_type_crosswalk'', PyRef 2) # four_keywords"
        four_mappings "[]"] 1
  have a: "Config_new four_mappings [] ((''ret_type_crosswalk'', PyRef 2) # four_keywords)
        = (Inl TypeError, four_mappings) \<and>
      from_parsed_call four_mappings [] ((''ret_type_crosswalk'', PyRef 2) # four_keywords)
        = (Inl TypeError, four_mappings)"
    by blast
  from fixed_mappings_not_parameters
      [of _ "[]" four_mappings "[PyRef 2, PyRef 3, PyRef 4, PyRef 5, PyRef 6]"] 2
  have b: "Config_new four_mappings [PyRef 2, PyRef 3, PyRef 4, PyRef 5, PyRef 6] []
      = (Inl TypeError, four_mappings)"
    by blast
  from fixed_mappings_not_parameters
      [of _ "[(''wrapper_classes'', PyRef 5), (''derived_handles'', PyRef 4)]" four_mappings
        "[PyRef 2, PyRef 3]" "PyRef 7" "four_mappings @ [PyConfig first_fields]" loaded_class] 3
  have c: "length [PyRef 2, PyRef 3]
        + length [(''wrapper_classes'', PyRef 5), (''derived_handles'', PyRef 4)] = 4 \<and>
      set (map fst [(''wrapper_classes'', PyRef 5), (''derived_handles'', PyRef 4)])
        \<subseteq> set Config_fields \<and>
      Config_getattr loaded_class (four_mappings @ [PyConfig first_fields]) (PyRef 7)
          ''ret_type_crosswalk''
        = Inr (ret_type_crosswalk loaded_class) \<and>
      Config_getattr loaded_class (four_mappings @ [PyConfig first_fields]) (PyRef 7)
          ''prop_type_crosswalk''
        = Inr (prop_type_crosswalk loaded_class)"
    by blast
  from fixed_mappings_not_parameters
      [of _ "[]" four_mappings "[]" _ _ _ "PyRef 2" "PyRef 3" "PyRef 4" "PyRef 5"]
  have d: "Config_new four_mappings [PyRef 2, PyRef 3, PyRef 4, PyRef 5] []
     = (Inr (PyRef (length four_mappings)),
        four_mappings @ [PyConfig \<lparr>class_crosswalk = PyRef 2, class_accessors = PyRef 3,
                                   derived_handles = PyRef 4, wrapper_classes = PyRef 5\<rparr>])"
    by blast
  from 1 2 3 4 a b c d show ?thesis
    by blast
qed

section \<open>Keyword-only arguments\<close>

text \<open>
  A call that passes its arguments by keyword is accepted, but it need not succeed:
  the call below passes by keyword, as \<^verbatim>\<open>wrapper_classes\<close>, an object whose truth test
  raises \<^verbatim>\<open>ValueError\<close>. The three arguments before it are missing and get their
  empty mappings; then the test raises, and the call ends with that error.
\<close>

theorem from_parsed_keyword_fails_counterexample:
  "distinct (map fst [(''wrapper_classes'', PyRef 2)]) \<and>
   set (map fst [(''wrapper_classes'', PyRef 2)]) \<subseteq> set Config_fields \<and>
   deref raising_store 2 = Some (PyOther (Inl ValueError)) \<and>
   from_parsed_call raising_store [] [(''wrapper_classes'', PyRef 2)]
     = (Inl ValueError, raising_store @ [PyDict [], PyDict [], PyDict []])"
  by (simp add: Config_fields_def raising_store_def loaded_store_def deref_def
      from_parsed_call_def kwarg_def from_parsed_def or_empty_dict_def truthy_def alloc_def)

text \<open>
  C10. The four arguments of \<^verbatim>\<open>Config.from_parsed\<close> are keyword-only. A call with a
  positional argument fails with \<^verbatim>\<open>TypeError\<close>, whatever else it passes. A call
  that passes any of the four by keyword, each at most once, is accepted: it
  succeeds whenever the truth tests of its arguments return, as they do for every
  scalar, list, dictionary and instance, and an error it ends with is an error that
  the truth test of one of its arguments raised. The order of the keywords does not
  matter: two calls with the same keyword arguments in different orders have the
  same result.
\<close>

theorem from_parsed_keyword_only:
  "(pos \<noteq> [] \<longrightarrow> from_parsed_call h pos kw = (Inl TypeError, h)) \<and>
   (distinct (map fst kw) \<and> set (map fst kw) \<subseteq> set Config_fields \<longrightarrow>
      ((\<forall>v \<in> snd ` set kw. testable h v) \<longrightarrow>
         (\<exists>self h'. from_parsed_call h [] kw = (Inr self, h'))) \<and>
      (\<forall>e h'. from_parsed_call h [] kw = (Inl e, h') \<longrightarrow>
         (\<exists>v \<in> snd ` set kw. truthy h v = Inl e)) \<and>
      (\<forall>kw'. distinct (map fst kw') \<and> set kw' = set kw \<longrightarrow>
         from_parsed_call h [] kw' = from_parsed_call h [] kw))"
proof -
  let ?cc = "kwarg kw ''class_crosswalk'' PyNone"
  let ?ca = "kwarg kw ''class_accessors'' PyNone"
  let ?dh = "kwarg kw ''derived_handles'' PyNone"
  let ?wc = "kwarg kw ''wrapper_classes'' PyNone"
  have 1: "from_parsed_call h pos kw = (Inl TypeError, h)" if "pos \<noteq> []"
    using that by (simp add: from_parsed_call_def)
  have 2: "\<exists>self h'. from_parsed_call h [] kw = (Inr self, h')"
    if k: "distinct (map fst kw)" "set (map fst kw) \<subseteq> set Config_fields"
      and t: "\<forall>v \<in> snd ` set kw. testable h v"
  proof -
    note tk = testable_kwarg [OF t]
    from from_parsed_succeeds [OF tk tk tk tk] show ?thesis
      unfolding from_parsed_call_kw [OF k] by blast
  qed
  have 3: "\<exists>v \<in> snd ` set kw. truthy h v = Inl e"
    if k: "distinct (map fst kw)" "set (map fst kw) \<subseteq> set Config_fields"
      and c: "from_parsed_call h [] kw = (Inl e, h')" for e h'
  proof -
    from c have "from_parsed h ?cc ?ca ?dh ?wc = (Inl e, h')"
      by (simp only: from_parsed_call_kw [OF k])
    from from_parsed_Inl [OF this] obtain name where "truthy h (kwarg kw name PyNone) = Inl e"
      by auto
    then show ?thesis by (rule truthy_kwarg_Inl)
  qed
  have 4: "from_parsed_call h [] kw' = from_parsed_call h [] kw"
    if "distinct (map fst kw)" "set (map fst kw) \<subseteq> set Config_fields"
      "distinct (map fst kw')" "set kw' = set kw" for kw'
  proof -
    from that(4) have k: "set (map fst kw') = set (map fst kw)" by simp
    with that(2) have s: "set (map fst kw') \<subseteq> set Config_fields" by simp
    from that(1,3,4) have "map_of kw' = map_of kw"
      by (simp add: map_of_inject_set)
    then have "kwarg kw' = kwarg kw"
      by (simp add: kwarg_def fun_eq_iff)
    then show ?thesis
      by (simp add: from_parsed_call_kw [OF that(1,2)] from_parsed_call_kw [OF that(3) s])
  qed
  from 1 2 3 4 show ?thesis by blast
qed

theorem from_parsed_keyword_only_witness:
  "[PyRef 2] \<noteq> [] \<and>
   from_parsed_call sol_store [PyRef 2] [] = (Inl TypeError, sol_store) \<and>
   distinct (map fst four_keywords) \<and>
   set (map fst four_keywords) \<subseteq> set Config_fields \<and>
   testable four_mappings (PyRef 2) \<and> testable four_mappings (PyRef 3) \<and>
   testable four_mappings (PyRef 4) \<and> testable four_mappings (PyRef 5) \<and>
   (\<exists>self h'. from_parsed_call four_mappings [] four_keywords = (Inr self, h')) \<and>
   distinct (map fst (rev four_keywords)) \<and>
   set (rev four_keywords) = set four_keywords \<and>
   from_parsed_call four_mappings [] (rev four_keywords) =
     from_parsed_call four_mappings [] four_keywords \<and>
   distinct (map fst [(''wrapper_classes'', PyRef 2)]) \<and>
   set (map fst [(''wrapper_classes'', PyRef 2)]) \<subseteq> set Config_fields \<and>
   from_parsed_call raising_store [] [(''wrapper_classes'', PyRef 2)]
     = (Inl ValueError, raising_store @ [PyDict [], PyDict [], PyDict []]) \<and>
   truthy raising_store (PyRef 2) = Inl ValueError"
proof -
  have 1: "[PyRef 2] \<noteq> []"
    by simp
  have 2: "distinct (map fst four_keywords)"
    by (simp add: four_keywords_def)
  have 3: "set (map fst four_keywords) \<subseteq> set Config_fields"
    by (simp add: four_keywords_def Config_fields_def)
  have 4: "distinct (map fst (rev four_keywords))"
    by (simp add: four_keywords_def)
  have 5: "set (rev four_keywords) = set four_keywords"
    by simp
  have 6: "\<forall>v \<in> snd ` set four_keywords. testable four_mappings v"
    by (simp add: four_keywords_def testable_def truthy_def deref_def four_mappings_def
        loaded_store_def)
  have 7: "testable four_mappings (PyRef 2) \<and> testable four_mappings (PyRef 3) \<and>
      testable four_mappings (PyRef 4) \<and> testable four_mappings (PyRef 5)"
    using 6 by (simp add: four_keywords_def)
  have 8: "distinct (map fst [(''wrapper_classes'', PyRef 2)])"
    by simp
  have 9: "set (map fst [(''wrapper_classes'', PyRef 2)]) \<subseteq> set Config_fields"
    by (simp add: Config_fields_def)
  have 10: "from_parsed_call raising_store [] [(''wrapper_classes'', PyRef 2)]
      = (Inl ValueError, raising_store @ [PyDict [], PyDict [], PyDict []])"
    by code_simp
  note pos = from_parsed_keyword_only [of "[PyRef 2]" sol_store "[]", THEN conjunct1]
  note four = from_parsed_keyword_only [of "[]" four_mappings four_keywords,
      THEN conjunct2, THEN mp, OF conjI [OF 2 3]]
  note raising = from_parsed_keyword_only [of "[]" raising_store "[(''wrapper_classes'', PyRef 2)]",
      THEN conjunct2, THEN mp, OF conjI [OF 8 9]]
  have a: "from_parsed_call sol_store [PyRef 2] [] = (Inl TypeError, sol_store)"
    using pos 1 by (rule mp)
  have c: "\<exists>self h'. from_parsed_call four_mappings [] four_keywords = (Inr self, h')"
    using four [THEN conjunct1] 6 by (rule mp)
  have d: "from_parsed_call four_mappings [] (rev four_keywords) =
      from_parsed_call four_mappings [] four_keywords"
    using four [THEN conjunct2, THEN conjunct2, THEN spec] conjI [OF 4 5] by (rule mp)
  have "\<exists>v \<in> snd ` set [(''wrapper_classes'', PyRef 2)]. truthy raising_store v = Inl ValueError"
    using raising [THEN conjunct2, THEN conjunct1, THEN spec, THEN spec] 10 by (rule mp)
  then have e: "truthy raising_store (PyRef 2) = Inl ValueError"
    by simp
  from 1 2 3 4 5 7 8 9 10 a c d e show ?thesis
    by (elim conjE) (intro conjI; assumption)
qed

end
